theory Spec2Isabelle
  imports Main "HOL-Library.Sublist"
begin

section \<open>MqttClient: connection lifecycle, retries and event routing\<close>

text \<open>
  A shallow embedding of \<^verbatim>\<open>src/Mqtt/MqttClient.ts\<close>. One client object is followed
  together with the three things it talks to: the event bus (\<^verbatim>\<open>EventEmitter\<close>),
  the JavaScript timer queue, and the native module (\<^verbatim>\<open>MqttJSIModule\<close>). Every
  method of the class is a function from the world before the call to the world after it.
  What the client does to the outside (native calls, timers it schedules, application
  callbacks it invokes) is appended to a trace, in program order.

  JavaScript numbers that count things (\<^verbatim>\<open>currentRetryCount\<close>, \<^verbatim>\<open>tag\<close>)
  are natural numbers; numbers supplied by the application are integers. Both are exact,
  as doubles are below \<open>2^53\<close>. A property of an option bag is absent, present with
  the value \<^verbatim>\<open>undefined\<close>, or present with a value.

  The bus is a process-wide singleton in the source. Here it holds the registrations of
  the one client that is followed. An application callback is recorded when it is called;
  while it runs it may call methods of the client, and it may throw.
\<close>

subsection \<open>Constants and option bags\<close>

datatype CONNECTION_STATE = CONNECTED | CONNECTING | DISCONNECTED

text \<open>
  \<^verbatim>\<open>Mqtt5ReasonCode\<close> is an enum of \<^verbatim>\<open>MqttClient.constants\<close>; the source names
  its member \<^verbatim>\<open>DEFAULT\<close>, the other members are kept by their numeric value.
\<close>

datatype Mqtt5ReasonCode = DEFAULT | REASON int

text \<open>
  Modelled from the spec: the enum \<^verbatim>\<open>MQTT_EVENTS\<close> of \<^verbatim>\<open>MqttClient.constants\<close>
  is missing. \<^verbatim>\<open>MQTT_EVENTS.CONNECTED_EVENT\<close> is the suffix of the channel the spec
  writes \<^verbatim>\<open>clientId+CONNECTED\<close>.
\<close>

definition CONNECTED_EVENT :: string where
  "CONNECTED_EVENT = ''CONNECTED''"

text \<open>
  Modelled from the spec: \<^verbatim>\<open>MQTT_EVENTS.DISCONNECTED_EVENT\<close> (missing, as above),
  the suffix of the channel \<^verbatim>\<open>clientId+DISCONNECTED\<close>.
\<close>

definition DISCONNECTED_EVENT :: string where
  "DISCONNECTED_EVENT = ''DISCONNECTED''"

text \<open>
  Modelled from the spec: \<^verbatim>\<open>MQTT_EVENTS.SUBSCRIPTION_SUCCESS_EVENT\<close> (missing, as
  above), the suffix of the channel \<^verbatim>\<open>eventId+SUCCESS\<close>.
\<close>

definition SUBSCRIPTION_SUCCESS_EVENT :: string where
  "SUBSCRIPTION_SUCCESS_EVENT = ''SUCCESS''"

text \<open>
  Modelled from the spec: \<^verbatim>\<open>MQTT_EVENTS.SUBSCRIPTION_FAILED_EVENT\<close> (missing, as
  above), the suffix of the channel \<^verbatim>\<open>eventId+FAILURE\<close>.
\<close>

definition SUBSCRIPTION_FAILED_EVENT :: string where
  "SUBSCRIPTION_FAILED_EVENT = ''FAILURE''"

text \<open>
  A property of a JavaScript object: the object does not have it, or has it with the
  value \<^verbatim>\<open>undefined\<close>, or has it with a value. Reading it gives \<^verbatim>\<open>undefined\<close> in
  the first two cases.
\<close>

datatype 'a property = Absent | Undefined | Value 'a

fun value_of :: "'a property \<Rightarrow> 'a option" where
  "value_of Absent = None"
| "value_of Undefined = None"
| "value_of (Value v) = Some v"

text \<open>
  \<^verbatim>\<open>MqttOptions\<close> (and \<^verbatim>\<open>MqttConnect\<close>, the part of it an interceptor may return):
  every property is optional.
\<close>

record MqttOptions =
  keepAlive :: "int property"
  username :: "string property"
  password :: "string property"
  cleanSession :: "bool property"
  autoReconnect :: "bool property"
  retryCount :: "int property"
  backoffTime :: "int property"
  maxBackoffTime :: "int property"
  jitter :: "bool property"
  enableSslConfig :: "bool property"

definition no_options :: MqttOptions where
  "no_options = \<lparr>keepAlive = Absent, username = Absent, password = Absent,
     cleanSession = Absent, autoReconnect = Absent, retryCount = Absent,
     backoffTime = Absent, maxBackoffTime = Absent, jitter = Absent,
     enableSslConfig = Absent\<rparr>"

text \<open>\<^verbatim>\<open>this.options?.x\<close>: the options may be undefined themselves.\<close>

definition prop_of :: "MqttOptions option \<Rightarrow> (MqttOptions \<Rightarrow> 'a property) \<Rightarrow> 'a option" where
  "prop_of opts x = (case opts of None \<Rightarrow> None | Some bag \<Rightarrow> value_of (x bag))"

text \<open>
  One property of \<^verbatim>\<open>{...a, ...b}\<close>: the property of \<open>b\<close> when \<open>b\<close> has it, also
  when its value there is \<^verbatim>\<open>undefined\<close>; otherwise the property of \<open>a\<close>.
\<close>

definition override :: "'a property \<Rightarrow> 'a property \<Rightarrow> 'a property" where
  "override a b = (case b of Absent \<Rightarrow> a | Undefined \<Rightarrow> Undefined | Value v \<Rightarrow> Value v)"

text \<open>\<^verbatim>\<open>{ ...a, ...b }\<close> on two option bags.\<close>

definition spread :: "MqttOptions \<Rightarrow> MqttOptions \<Rightarrow> MqttOptions" where
  "spread a b =
     \<lparr>keepAlive = override (keepAlive a) (keepAlive b),
      username = override (username a) (username b),
      password = override (password a) (password b),
      cleanSession = override (cleanSession a) (cleanSession b),
      autoReconnect = override (autoReconnect a) (autoReconnect b),
      retryCount = override (retryCount a) (retryCount b),
      backoffTime = override (backoffTime a) (backoffTime b),
      maxBackoffTime = override (maxBackoffTime a) (maxBackoffTime b),
      jitter = override (jitter a) (jitter b),
      enableSslConfig = override (enableSslConfig a) (enableSslConfig b)\<rparr>"

text \<open>The object handed to \<^verbatim>\<open>MqttJSIModule.connectMqtt\<close>.\<close>

record connect_args =
  arg_keepAlive :: int
  arg_username :: string
  arg_password :: string
  arg_cleanSession :: bool

text \<open>
  The four arguments of \<^verbatim>\<open>getMqttBackoffTime\<close> as \<^verbatim>\<open>connection\<close> passes them: a
  scheduled timer is recorded with them, and its delay is the helper applied to them.
\<close>

record backoff_args =
  arg_backoffTime :: "int option"
  arg_attempt :: nat
  arg_maxBackoffTime :: "int option"
  arg_jitter :: "bool option"

subsection \<open>Events, callbacks and the trace\<close>

text \<open>The payload of an event: the reason code it carries and the rest of it.\<close>

record MqttEvent =
  reasonCode :: Mqtt5ReasonCode
  body :: string

datatype disconnectType = forceDisconnected | autoDisconnected

text \<open>
  An application callback is known by a number. Each invocation is recorded with its
  arguments. The second argument of a disconnect callback is
  \<^verbatim>\<open>{...this.options, disconnectType, retryCount: this.currentRetryCount}\<close>: the option
  bag, the tag, and the retry count that replaces the bag's own \<^verbatim>\<open>retryCount\<close>.
\<close>

datatype app_call =
    Callback nat MqttEvent
  | ConnectFailure nat Mqtt5ReasonCode
  | OnDisconnect nat Mqtt5ReasonCode "MqttOptions option" disconnectType nat
  | ReconnectIntercepter nat "Mqtt5ReasonCode option"

datatype effect =
    CreateMqtt string string int bool
  | ConnectMqtt string connect_args
  | DisconnectMqtt string
  | RemoveMqtt string
  | SubscribeMqtt string string string nat
  | SetTimeout nat backoff_args
  | ClearTimeout "nat option"
  | App app_call

text \<open>
  The closures of the class that end up in the event bus. \<open>ConnectedHandler\<close> is the
  arrow function of the constructor at lines 73-84, \<open>AutoReconnectHandler\<close> the async
  one at lines 99-117; \<open>ConnectFailureWrapper f\<close> and \<open>DisconnectWrapper f\<close> are the
  closures that \<^verbatim>\<open>setOnConnectFailureCallback\<close> and \<^verbatim>\<open>setOnDisconnectCallback\<close>
  build around the application callback \<open>f\<close>; \<open>AppCallback f\<close> is an application callback
  registered as it is, \<open>NoOp\<close> the default \<^verbatim>\<open>() => {}\<close>.
\<close>

datatype callback =
    ConnectedHandler
  | AutoReconnectHandler
  | ConnectFailureWrapper nat
  | DisconnectWrapper nat
  | AppCallback nat
  | NoOp

text \<open>
  A listener is a callback registered directly, or the try/catch closure that
  \<^verbatim>\<open>onDisconnectInterceptor\<close> puts around it.
\<close>

datatype listener = Direct callback | Intercepted callback

text \<open>
  An async callback stops at its \<^verbatim>\<open>await\<close> and runs its rest later. \<open>RetryK\<close> is the
  rest of the retry timer's callback (lines 161-165), \<open>ReconnectK ack\<close> the rest of the
  auto-reconnect handler (lines 114-116) for the event \<open>ack\<close>. What is awaited is the
  interceptor's promise, or \<^verbatim>\<open>undefined\<close> when no interceptor is set.
\<close>

datatype continuation = RetryK | ReconnectK MqttEvent

datatype awaited = AwaitIntercepter | AwaitUndefined

datatype outcome = Resolved "MqttOptions option" | Rejected

subsection \<open>The world\<close>

record world =
  clientId :: string
  host :: string
  port :: int
  options :: "MqttOptions option"
  retryTimer :: "nat option"
  currentRetryCount :: nat
  mqtt5DisconnectReasonCode :: "Mqtt5ReasonCode option"
  tag :: nat
  connectionStatus :: CONNECTION_STATE
  onReconnectIntercepter :: "nat option"
  listeners :: "(string \<times> nat \<times> listener) list"
  next_listener :: nat
  timers :: "(nat \<times> backoff_args) list"
  next_timer :: nat
  inflight :: "(awaited \<times> continuation) list"
  trace :: "effect list"

definition emit_effect :: "effect \<Rightarrow> world \<Rightarrow> world" where
  "emit_effect e w = w\<lparr>trace := trace w @ [e]\<rparr>"

subsection \<open>The event bus\<close>

text \<open>
  The class \<^verbatim>\<open>EventEmitter\<close> is missing from the sources; its four operations follow
  section 4.1 of the spec. A registration is the triple of its event identifier, its
  token and the listener.
\<close>

text \<open>
  Modelled from the spec: \<^verbatim>\<open>EventEmitter.addListener\<close> (missing) registers a handler
  under an event identifier and returns a token; several listeners may share an
  identifier, and they are kept in registration order.
\<close>

definition addListener :: "string \<Rightarrow> listener \<Rightarrow> world \<Rightarrow> nat \<times> world" where
  "addListener eventId l w =
     (next_listener w,
      w\<lparr>listeners := listeners w @ [(eventId, next_listener w, l)],
        next_listener := Suc (next_listener w)\<rparr>)"

text \<open>
  Modelled from the spec: the \<^verbatim>\<open>remove()\<close> of the token that \<^verbatim>\<open>addListener\<close>
  (missing) returns deregisters exactly this handler instance.
\<close>

definition token_remove :: "nat \<Rightarrow> world \<Rightarrow> world" where
  "token_remove t w = w\<lparr>listeners := filter (\<lambda>(k, i, l). i \<noteq> t) (listeners w)\<rparr>"

text \<open>
  Modelled from the spec: \<^verbatim>\<open>EventEmitter.removeAllListeners\<close> (missing) clears every
  handler of one identifier.
\<close>

definition removeAllListeners :: "string \<Rightarrow> world \<Rightarrow> world" where
  "removeAllListeners eventId w =
     w\<lparr>listeners := filter (\<lambda>(k, i, l). k \<noteq> eventId) (listeners w)\<rparr>"

text \<open>The handlers registered for an identifier, in registration order.\<close>

definition handlers_for :: "string \<Rightarrow> world \<Rightarrow> listener list" where
  "handlers_for eventId w = map (\<lambda>(k, i, l). l) (filter (\<lambda>(k, i, l). k = eventId) (listeners w))"

subsection \<open>Timers\<close>

text \<open>
  \<^verbatim>\<open>setTimeout\<close> and \<^verbatim>\<open>clearTimeout\<close> of the JavaScript runtime. The only timer
  the class creates is the retry timer of \<^verbatim>\<open>connection\<close>, so a pending timer is its
  handle and the arguments its delay is computed from. \<^verbatim>\<open>clearTimeout\<close> of
  \<^verbatim>\<open>undefined\<close>, or of a handle that has fired, does nothing.
\<close>

definition clearTimeout :: "nat option \<Rightarrow> world \<Rightarrow> world" where
  "clearTimeout h w =
     (emit_effect (ClearTimeout h) w)
       \<lparr>timers := filter (\<lambda>(i, a). Some i \<noteq> h) (timers w)\<rparr>"

definition setTimeout :: "backoff_args \<Rightarrow> world \<Rightarrow> nat \<times> world" where
  "setTimeout a w =
     (next_timer w,
      (emit_effect (SetTimeout (next_timer w) a) w)
        \<lparr>timers := timers w @ [(next_timer w, a)], next_timer := Suc (next_timer w)\<rparr>)"

subsection \<open>Rendering numbers\<close>

text \<open>A template literal renders a non-negative integer in decimal.\<close>

definition digit_char :: "nat \<Rightarrow> char" where
  "digit_char d = char_of (48 + d)"

fun show_nat :: "nat \<Rightarrow> string" where
  "show_nat n = (if n < 10 then [digit_char n] else show_nat (n div 10) @ [digit_char (n mod 10)])"

declare show_nat.simps [simp del]

definition read_nat :: "string \<Rightarrow> nat" where
  "read_nat s = foldl (\<lambda>a c. 10 * a + (of_char c - 48)) 0 s"

subsection \<open>The private methods\<close>

text \<open>
  The object passed to \<^verbatim>\<open>connectMqtt\<close> (lines 142-147). \<^verbatim>\<open>x || d\<close> is \<open>d\<close>
  when \<open>x\<close> is undefined, \<open>0\<close>, the empty string or \<open>false\<close>.
\<close>

definition connect_options :: "MqttOptions option \<Rightarrow> connect_args" where
  "connect_options opts =
     \<lparr>arg_keepAlive =
        (case prop_of opts keepAlive of None \<Rightarrow> 60 | Some k \<Rightarrow> if k = 0 then 60 else k),
      arg_username =
        (case prop_of opts username of None \<Rightarrow> [] | Some u \<Rightarrow> if u = [] then [] else u),
      arg_password =
        (case prop_of opts password of None \<Rightarrow> [] | Some p \<Rightarrow> if p = [] then [] else p),
      arg_cleanSession =
        (case prop_of opts cleanSession of None \<Rightarrow> True | Some c \<Rightarrow> if c then c else True)\<rparr>"

text \<open>
  The condition of line 150-153: \<^verbatim>\<open>retryCount\<close> is set and not \<open>0\<close>, and the retries
  made so far are fewer.
\<close>

definition may_retry :: "world \<Rightarrow> bool" where
  "may_retry w =
     (case prop_of (options w) retryCount of
        None \<Rightarrow> False
      | Some n \<Rightarrow> n \<noteq> 0 \<and> int (currentRetryCount w) < n)"

text \<open>
  The arguments of the call of \<^verbatim>\<open>getMqttBackoffTime\<close> at line 167. The attempt is
  \<^verbatim>\<open>this.currentRetryCount ?? 1\<close>: \<^verbatim>\<open>??\<close> takes its right side only for
  \<^verbatim>\<open>null\<close> and \<^verbatim>\<open>undefined\<close>, and the counter is always a number, so the attempt
  is the counter, also when it is \<open>0\<close>.
\<close>

definition backoff_call :: "world \<Rightarrow> backoff_args" where
  "backoff_call w =
     \<lparr>arg_backoffTime = prop_of (options w) backoffTime,
      arg_attempt = currentRetryCount w,
      arg_maxBackoffTime = prop_of (options w) maxBackoffTime,
      arg_jitter = prop_of (options w) jitter\<rparr>"

text \<open>
  \<^verbatim>\<open>connection()\<close>, lines 125-169, up to the scheduling of the timer. What the timer
  does when it fires is \<open>fire_timer\<close> below.
\<close>

definition connection :: "world \<Rightarrow> world" where
  "connection w =
     (if connectionStatus w \<noteq> CONNECTING then w
      else
        let w1 = emit_effect (ConnectMqtt (clientId w) (connect_options (options w))) w;
            w2 = clearTimeout (retryTimer w1) w1
        in if may_retry w2
           then (let (h, w3) = setTimeout (backoff_call w2) w2 in w3\<lparr>retryTimer := Some h\<rparr>)
           else w2)"

definition resetConnectVariables :: "world \<Rightarrow> world" where
  "resetConnectVariables w = w\<lparr>currentRetryCount := 0, connectionStatus := CONNECTING\<rparr>"

definition getIdPrefix :: "world \<Rightarrow> string" where
  "getIdPrefix w = ''mqtt_client#'' @ clientId w"

definition resetOptions :: "MqttOptions option \<Rightarrow> world \<Rightarrow> world" where
  "resetOptions opts w =
     (case opts of
        None \<Rightarrow> w
      | Some new \<Rightarrow>
          w\<lparr>options := Some (spread (case options w of None \<Rightarrow> no_options | Some old \<Rightarrow> old) new)\<rparr>)"

text \<open>\<^verbatim>\<open>getMqttSubscribeEventId\<close>: the tag is incremented first, then rendered.\<close>

definition getMqttSubscribeEventId :: "string \<Rightarrow> nat \<Rightarrow> world \<Rightarrow> string \<times> world" where
  "getMqttSubscribeEventId topic qos w =
     (let w1 = w\<lparr>tag := Suc (tag w)\<rparr>
      in (getIdPrefix w1 @ ''#subscribe_mqtt#'' @ topic @ ''#'' @ show_nat qos @ ''#''
            @ show_nat (tag w1), w1))"

text \<open>
  \<^verbatim>\<open>onDisconnectInterceptor\<close>: the callback is registered inside a try/catch closure on
  the client's disconnect channel.
\<close>

definition onDisconnectInterceptor :: "callback \<Rightarrow> world \<Rightarrow> nat \<times> world" where
  "onDisconnectInterceptor cb w =
     addListener (clientId w @ DISCONNECTED_EVENT) (Intercepted cb) w"

subsection \<open>The public methods\<close>

definition connect :: "MqttOptions option \<Rightarrow> world \<Rightarrow> world" where
  "connect opts w = connection (resetOptions opts (resetConnectVariables w))"

definition setOnReconnectIntercepter :: "nat \<Rightarrow> world \<Rightarrow> world" where
  "setOnReconnectIntercepter f w = w\<lparr>onReconnectIntercepter := Some f\<rparr>"

definition setOnConnectCallback :: "callback \<Rightarrow> world \<Rightarrow> nat \<times> world" where
  "setOnConnectCallback cb w = addListener (clientId w @ CONNECTED_EVENT) (Direct cb) w"

definition setOnConnectFailureCallback :: "nat \<Rightarrow> world \<Rightarrow> nat \<times> world" where
  "setOnConnectFailureCallback f w = onDisconnectInterceptor (ConnectFailureWrapper f) w"

definition setOnDisconnectCallback :: "nat \<Rightarrow> world \<Rightarrow> nat \<times> world" where
  "setOnDisconnectCallback f w = onDisconnectInterceptor (DisconnectWrapper f) w"

text \<open>
  \<^verbatim>\<open>subscribe\<close>: \<open>qos\<close> defaults to \<open>1\<close>, \<open>onSuccess\<close> and \<open>onError\<close> to the empty
  function. The handle returned holds the three tokens; its \<^verbatim>\<open>remove()\<close> is
  \<open>subscription_remove\<close>.
\<close>

definition subscribe ::
  "string \<Rightarrow> nat option \<Rightarrow> nat \<Rightarrow> nat option \<Rightarrow> nat option \<Rightarrow> world \<Rightarrow> (nat \<times> nat \<times> nat) \<times> world" where
  "subscribe topic qos_opt onEvent onSuccess onError w =
     (let qos = (case qos_opt of None \<Rightarrow> 1 | Some q \<Rightarrow> q);
          (eventId, w1) = getMqttSubscribeEventId topic qos w;
          w2 = emit_effect (SubscribeMqtt eventId (clientId w1) topic qos) w1;
          (listener, w3) = addListener eventId (Direct (AppCallback onEvent)) w2;
          (success, w4) =
            addListener (eventId @ SUBSCRIPTION_SUCCESS_EVENT)
              (Direct (case onSuccess of None \<Rightarrow> NoOp | Some f \<Rightarrow> AppCallback f)) w3;
          (failed, w5) =
            addListener (eventId @ SUBSCRIPTION_FAILED_EVENT)
              (Direct (case onError of None \<Rightarrow> NoOp | Some f \<Rightarrow> AppCallback f)) w4
      in ((listener, success, failed), w5))"

definition subscription_remove :: "nat \<times> nat \<times> nat \<Rightarrow> world \<Rightarrow> world" where
  "subscription_remove h w =
     (case h of (listener, success, failed) \<Rightarrow>
        token_remove failed (token_remove success (token_remove listener w)))"

definition disconnect :: "world \<Rightarrow> world" where
  "disconnect w = emit_effect (DisconnectMqtt (clientId w)) (w\<lparr>connectionStatus := DISCONNECTED\<rparr>)"

definition remove :: "world \<Rightarrow> world" where
  "remove w =
     removeAllListeners (clientId w @ CONNECTED_EVENT)
       (removeAllListeners (clientId w @ DISCONNECTED_EVENT)
          (emit_effect (RemoveMqtt (clientId w)) w))"

text \<open>
  The constructor. A fresh object has the field initialisers of lines 21-35; the bus and
  the timer queue are empty. With an empty host (\<^verbatim>\<open>!host\<close>) the constructor returns
  at line 52.
\<close>

definition fresh :: "string \<Rightarrow> string \<Rightarrow> int \<Rightarrow> MqttOptions option \<Rightarrow> world" where
  "fresh cid h p opts =
     \<lparr>clientId = cid, host = h, port = p, options = opts, retryTimer = None,
      currentRetryCount = 0, mqtt5DisconnectReasonCode = None, tag = 0,
      connectionStatus = DISCONNECTED, onReconnectIntercepter = None,
      listeners = [], next_listener = 0, timers = [], next_timer = 0, inflight = [],
      trace = []\<rparr>"

definition constructor :: "string \<Rightarrow> string \<Rightarrow> int \<Rightarrow> MqttOptions option \<Rightarrow> world" where
  "constructor cid h p opts =
     (let w = fresh cid h p opts
      in if h = [] then w
         else
           let w1 = emit_effect
                      (CreateMqtt cid h p
                         (case prop_of opts enableSslConfig of None \<Rightarrow> False | Some b \<Rightarrow> b)) w;
               w2 = snd (setOnConnectCallback ConnectedHandler w1)
           in if prop_of opts autoReconnect = Some True
              then snd (onDisconnectInterceptor AutoReconnectHandler w2)
              else w2)"

subsection \<open>What the application calls\<close>

text \<open>
  The public methods as the application calls them, from its own code or from inside
  one of its callbacks. \<open>CallSubscriptionRemove\<close> and \<open>CallTokenRemove\<close> are the
  \<^verbatim>\<open>remove()\<close> of a handle that an earlier call returned.
\<close>

datatype api_call =
    CallConnect "MqttOptions option"
  | CallDisconnect
  | CallRemove
  | CallSubscribe string "nat option" nat "nat option" "nat option"
  | CallSubscriptionRemove "nat \<times> nat \<times> nat"
  | CallSetOnReconnectIntercepter nat
  | CallSetOnConnectCallback nat
  | CallSetOnConnectFailureCallback nat
  | CallSetOnDisconnectCallback nat
  | CallTokenRemove nat

fun invoke :: "api_call \<Rightarrow> world \<Rightarrow> world" where
  "invoke (CallConnect opts) w = connect opts w"
| "invoke CallDisconnect w = disconnect w"
| "invoke CallRemove w = remove w"
| "invoke (CallSubscribe topic qos onEvent onSuccess onError) w =
     snd (subscribe topic qos onEvent onSuccess onError w)"
| "invoke (CallSubscriptionRemove h) w = subscription_remove h w"
| "invoke (CallSetOnReconnectIntercepter f) w = setOnReconnectIntercepter f w"
| "invoke (CallSetOnConnectCallback f) w = snd (setOnConnectCallback (AppCallback f) w)"
| "invoke (CallSetOnConnectFailureCallback f) w = snd (setOnConnectFailureCallback f w)"
| "invoke (CallSetOnDisconnectCallback f) w = snd (setOnDisconnectCallback f w)"
| "invoke (CallTokenRemove t) w = token_remove t w"

subsection \<open>Delivering events\<close>

text \<open>
  What an application callback does when it is invoked with given arguments: the
  methods of the client it calls while it runs, in order, and whether it throws in the
  end. JavaScript runs these calls synchronously, inside the invocation, so the
  listeners that come later in the same delivery see what they did.
\<close>

type_synonym behaviour = "app_call \<Rightarrow> api_call list \<times> bool"

text \<open>The invocation is recorded, then the callback runs.\<close>

definition call_app :: "behaviour \<Rightarrow> app_call \<Rightarrow> world \<Rightarrow> bool \<times> world" where
  "call_app beh c w =
     (snd (beh c), foldl (\<lambda>v m. invoke m v) (emit_effect (App c) w) (fst (beh c)))"

text \<open>Callbacks that call nothing: \<open>throws c\<close> tells whether the invocation \<open>c\<close> throws.\<close>

definition quiet :: "(app_call \<Rightarrow> bool) \<Rightarrow> behaviour" where
  "quiet throws c = ([], throws c)"

text \<open>Callbacks given by a table; an invocation that is not in it calls nothing and returns.\<close>

definition scripted :: "(app_call \<times> api_call list \<times> bool) list \<Rightarrow> behaviour" where
  "scripted tbl c = (case map_of tbl c of None \<Rightarrow> ([], False) | Some b \<Rightarrow> b)"

text \<open>
  \<^verbatim>\<open>await this.onReconnectIntercepter?.(this.mqtt5DisconnectReasonCode)\<close>, up to the
  point where the async function is suspended: the interceptor, when there is one, is
  called with the stored reason code, and the rest of the function waits. The
  interceptor answers through its promise (\<open>settle\<close> below); it is taken not to
  call the client before it returns the promise.
\<close>

definition ask_intercepter :: "continuation \<Rightarrow> world \<Rightarrow> world" where
  "ask_intercepter k w =
     (case onReconnectIntercepter w of
        None \<Rightarrow> w\<lparr>inflight := inflight w @ [(AwaitUndefined, k)]\<rparr>
      | Some f \<Rightarrow>
          (emit_effect (App (ReconnectIntercepter f (mqtt5DisconnectReasonCode w))) w)
            \<lparr>inflight := inflight w @ [(AwaitIntercepter, k)]\<rparr>)"

text \<open>
  One call of a closure with an event; the result says whether the call threw. The
  auto-reconnect handler is async, so it never throws into its caller. The wrappers of
  lines 275-286 and 296-320 read \<^verbatim>\<open>this.connectionStatus\<close> when they run.
\<close>

fun run_callback :: "callback \<Rightarrow> MqttEvent \<Rightarrow> behaviour \<Rightarrow> world \<Rightarrow> bool \<times> world" where
  "run_callback ConnectedHandler ack beh w =
     (False, w\<lparr>currentRetryCount := 0, connectionStatus := CONNECTED,
               mqtt5DisconnectReasonCode := None\<rparr>)"
| "run_callback AutoReconnectHandler ack beh w =
     (False,
      if connectionStatus w = CONNECTED then ask_intercepter (ReconnectK ack) w
      else w\<lparr>mqtt5DisconnectReasonCode := Some (reasonCode ack)\<rparr>)"
| "run_callback (ConnectFailureWrapper f) ack beh w =
     (if connectionStatus w = CONNECTING
      then call_app beh (ConnectFailure f (reasonCode ack)) w
      else (False, w))"
| "run_callback (DisconnectWrapper f) ack beh w =
     (if connectionStatus w \<noteq> CONNECTING
      then call_app beh
             (OnDisconnect f (reasonCode ack) (options w)
                (if connectionStatus w = DISCONNECTED then forceDisconnected
                 else autoDisconnected)
                (currentRetryCount w)) w
      else (False, w))"
| "run_callback (AppCallback f) ack beh w = call_app beh (Callback f ack) w"
| "run_callback NoOp ack beh w = (False, w)"

text \<open>
  A listener of the bus. The closure of \<^verbatim>\<open>onDisconnectInterceptor\<close> (lines 181-189)
  calls the callback again with the reason code \<^verbatim>\<open>DEFAULT\<close> when the first call
  threw. What a listener throws goes to the bus, which keeps it (spec, section 4.1).
\<close>

fun run_listener :: "listener \<Rightarrow> MqttEvent \<Rightarrow> behaviour \<Rightarrow> world \<Rightarrow> world" where
  "run_listener (Direct cb) ack beh w = snd (run_callback cb ack beh w)"
| "run_listener (Intercepted cb) ack beh w =
     (let (threw, w1) = run_callback cb ack beh w
      in if threw then snd (run_callback cb \<lparr>reasonCode = DEFAULT, body = []\<rparr> beh w1)
         else w1)"

text \<open>
  Modelled from the spec: the delivery of an event by the \<^verbatim>\<open>EventEmitter\<close> (missing)
  invokes the handlers registered for the identifier when the delivery starts, one after
  the other, in registration order; a handler that throws neither stops the delivery
  nor reaches the emitter.
\<close>

definition deliver :: "string \<Rightarrow> MqttEvent \<Rightarrow> behaviour \<Rightarrow> world \<Rightarrow> world" where
  "deliver eventId ack beh w =
     foldl (\<lambda>v l. run_listener l ack beh v) w (handlers_for eventId w)"

text \<open>The delivery of an event to application callbacks that call nothing.\<close>

definition emit :: "string \<Rightarrow> MqttEvent \<Rightarrow> (app_call \<Rightarrow> bool) \<Rightarrow> world \<Rightarrow> world" where
  "emit eventId ack throws w = deliver eventId ack (quiet throws) w"

subsection \<open>The retry timer and the suspended callbacks\<close>

text \<open>
  The callback of the retry timer (lines 154-167) up to its \<^verbatim>\<open>await\<close>. The status it
  reads is the one the native module reports (\<^verbatim>\<open>getConnectionStatus\<close>), an input here.
  A handle that is not pending does not fire.
\<close>

definition fire_timer :: "nat \<Rightarrow> CONNECTION_STATE \<Rightarrow> world \<Rightarrow> world" where
  "fire_timer h native_status w =
     (if h \<notin> set (map fst (timers w)) then w
      else
        let w1 = w\<lparr>timers := filter (\<lambda>(i, a). i \<noteq> h) (timers w)\<rparr>;
            w2 = w1\<lparr>currentRetryCount := Suc (currentRetryCount w1)\<rparr>
        in if native_status \<noteq> CONNECTED then ask_intercepter RetryK w2 else w2)"

text \<open>The rest of an async callback, once the awaited value \<open>newOptions\<close> is there.\<close>

fun resume :: "continuation \<Rightarrow> MqttOptions option \<Rightarrow> world \<Rightarrow> world" where
  "resume RetryK newOptions w = connection (resetOptions newOptions w)"
| "resume (ReconnectK ack) newOptions w =
     (connect newOptions w)\<lparr>mqtt5DisconnectReasonCode := Some (reasonCode ack)\<rparr>"

text \<open>
  The \<open>n\<close>-th suspended callback goes on. An awaited \<^verbatim>\<open>undefined\<close> gives
  \<^verbatim>\<open>undefined\<close>; an interceptor's promise gives what it resolves to, or is rejected,
  and then the rest of the callback never runs. Nothing in the class cancels a suspended
  callback.
\<close>

definition settle :: "nat \<Rightarrow> outcome \<Rightarrow> world \<Rightarrow> world" where
  "settle n out w =
     (if n < length (inflight w)
      then
        let (a, k) = inflight w ! n;
            w1 = w\<lparr>inflight := take n (inflight w) @ drop (Suc n) (inflight w)\<rparr>
        in (case a of
              AwaitUndefined \<Rightarrow> resume k None w1
            | AwaitIntercepter \<Rightarrow>
                (case out of Resolved r \<Rightarrow> resume k r w1 | Rejected \<Rightarrow> w1))
      else w)"

subsection \<open>Histories of a session\<close>

text \<open>
  Everything that can happen to a client: the application calls a method, the bus
  delivers an event (\<open>Emit\<close> to callbacks that call nothing, \<open>Deliver\<close> to callbacks
  given by a table), a timer fires, a suspended callback goes on.
\<close>

datatype action =
    Connect "MqttOptions option"
  | Disconnect
  | Remove
  | Subscribe string "nat option" nat "nat option" "nat option"
  | SubscriptionRemove "nat \<times> nat \<times> nat"
  | SetOnReconnectIntercepter nat
  | SetOnConnectCallback nat
  | SetOnConnectFailureCallback nat
  | SetOnDisconnectCallback nat
  | TokenRemove nat
  | Emit string MqttEvent "app_call \<Rightarrow> bool"
  | Deliver string MqttEvent "(app_call \<times> api_call list \<times> bool) list"
  | FireTimer nat CONNECTION_STATE
  | Settle nat outcome

fun step :: "action \<Rightarrow> world \<Rightarrow> world" where
  "step (Connect opts) w = connect opts w"
| "step Disconnect w = disconnect w"
| "step Remove w = remove w"
| "step (Subscribe topic qos onEvent onSuccess onError) w =
     snd (subscribe topic qos onEvent onSuccess onError w)"
| "step (SubscriptionRemove h) w = subscription_remove h w"
| "step (SetOnReconnectIntercepter f) w = setOnReconnectIntercepter f w"
| "step (SetOnConnectCallback f) w = snd (setOnConnectCallback (AppCallback f) w)"
| "step (SetOnConnectFailureCallback f) w = snd (setOnConnectFailureCallback f w)"
| "step (SetOnDisconnectCallback f) w = snd (setOnDisconnectCallback f w)"
| "step (TokenRemove t) w = token_remove t w"
| "step (Emit eventId ack throws) w = emit eventId ack throws w"
| "step (Deliver eventId ack tbl) w = deliver eventId ack (scripted tbl) w"
| "step (FireTimer h native_status) w = fire_timer h native_status w"
| "step (Settle n out) w = settle n out w"

text \<open>A history: the actions happen one after the other, each on the whole world.\<close>

definition run :: "action list \<Rightarrow> world \<Rightarrow> world" where
  "run as w = foldl (\<lambda>v a. step a v) w as"

text \<open>Application callbacks that all return normally.\<close>

definition never_throws :: "app_call \<Rightarrow> bool" where
  "never_throws c = False"

subsection \<open>The backoff calculator\<close>



text \<open>The timers a trace schedules and the native connect calls it makes, in order.\<close>

fun scheduled :: "effect list \<Rightarrow> backoff_args list" where
  "scheduled [] = []"
| "scheduled (SetTimeout h a # es) = a # scheduled es"
| "scheduled (e # es) = scheduled es"

fun connects :: "effect list \<Rightarrow> connect_args list" where
  "connects [] = []"
| "connects (ConnectMqtt c a # es) = a # connects es"
| "connects (e # es) = connects es"

section \<open>Properties of sessions\<close>

subsection \<open>What a trace shows\<close>

text \<open>The connect-failure and disconnect callbacks a trace has called, in order.\<close>

fun surfaced :: "effect list \<Rightarrow> app_call list" where
  "surfaced [] = []"
| "surfaced (App (ConnectFailure f r) # es) = ConnectFailure f r # surfaced es"
| "surfaced (App (OnDisconnect f r opts t n) # es) = OnDisconnect f r opts t n # surfaced es"
| "surfaced (e # es) = surfaced es"

text \<open>The calls of the reconnect interceptor in a trace: which one, with which argument.\<close>

fun intercepter_calls :: "effect list \<Rightarrow> (nat \<times> Mqtt5ReasonCode option) list" where
  "intercepter_calls [] = []"
| "intercepter_calls (App (ReconnectIntercepter f r) # es) = (f, r) # intercepter_calls es"
| "intercepter_calls (e # es) = intercepter_calls es"

text \<open>The registrations of a bus whose event identifier starts with \<open>p\<close>.\<close>

definition listeners_under :: "string \<Rightarrow> world \<Rightarrow> (string \<times> nat \<times> listener) list" where
  "listeners_under p w = filter (\<lambda>r. prefix p (fst r)) (listeners w)"

fun callback_of :: "listener \<Rightarrow> callback" where
  "callback_of (Direct cb) = cb"
| "callback_of (Intercepted cb) = cb"

subsection \<open>Invariants\<close>

text \<open>Every native connect call made so far asked for a clean session.\<close>

definition clean_inv :: "world \<Rightarrow> bool" where
  "clean_inv w = list_all arg_cleanSession (connects (trace w))"

text \<open>
  The pending timers are known to the client: each one is the timer whose handle
  \<^verbatim>\<open>retryTimer\<close> holds, and handles are not reused.
\<close>

definition timer_inv :: "world \<Rightarrow> bool" where
  "timer_inv w =
     ((\<forall>t \<in> set (timers w). retryTimer w = Some (fst t)) \<and> distinct (map fst (timers w))
      \<and> (\<forall>h \<in> set_option (retryTimer w). h < next_timer w))"

text \<open>A connected session has no stored reason code.\<close>

definition reason_inv :: "world \<Rightarrow> bool" where
  "reason_inv w = (connectionStatus w = CONNECTED \<longrightarrow> mqtt5DisconnectReasonCode w = None)"

text \<open>The tokens handed out are below the next one.\<close>

definition bus_inv :: "world \<Rightarrow> bool" where
  "bus_inv w = (\<forall>r \<in> set (listeners w). fst (snd r) < next_listener w)"

text \<open>The constructor's connected handler sits on the connected-event channel only.\<close>

definition channel_inv :: "world \<Rightarrow> bool" where
  "channel_inv w =
     (\<forall>r \<in> set (listeners w).
        callback_of (snd (snd r)) = ConnectedHandler \<longrightarrow> fst r = clientId w @ CONNECTED_EVENT)"

text \<open>A registration with a token below \<open>n\<close> is one of \<open>regs\<close>: later ones got later tokens.\<close>

definition old_tokens :: "nat \<Rightarrow> (string \<times> nat \<times> listener) list \<Rightarrow> world \<Rightarrow> bool" where
  "old_tokens n regs w =
     (n \<le> next_listener w \<and> (\<forall>r \<in> set (listeners w). fst (snd r) < n \<longrightarrow> r \<in> set regs))"

text \<open>
  A property of worlds that every public method keeps. The methods register application
  callbacks and their wrappers only, never the two handlers of the constructor.
\<close>

definition api_closed :: "(world \<Rightarrow> bool) \<Rightarrow> bool" where
  "api_closed P =
     ((\<forall>v opts. P v \<longrightarrow> P (connect opts v))
      \<and> (\<forall>v. P v \<longrightarrow> P (disconnect v))
      \<and> (\<forall>v. P v \<longrightarrow> P (remove v))
      \<and> (\<forall>v k l. P v \<longrightarrow> callback_of l \<noteq> ConnectedHandler
            \<longrightarrow> callback_of l \<noteq> AutoReconnectHandler \<longrightarrow> P (snd (addListener k l v)))
      \<and> (\<forall>v t. P v \<longrightarrow> P (token_remove t v))
      \<and> (\<forall>v t q. P v \<longrightarrow>
            P (emit_effect (SubscribeMqtt (fst (getMqttSubscribeEventId t q v)) (clientId v) t q)
                 (snd (getMqttSubscribeEventId t q v))))
      \<and> (\<forall>v f. P v \<longrightarrow> P (setOnReconnectIntercepter f v)))"

text \<open>
  The auto-reconnect handler of the constructor is the first registration on the
  disconnect channel of the client \<open>cid\<close>, with the token \<open>1\<close>, and the only
  registration of this handler there.
\<close>

definition auto_head :: "string \<Rightarrow> world \<Rightarrow> bool" where
  "auto_head cid w =
     (\<exists>rs. filter (\<lambda>r. fst r = cid @ DISCONNECTED_EVENT) (listeners w)
              = (cid @ DISCONNECTED_EVENT, 1, Intercepted AutoReconnectHandler) # rs
          \<and> (\<forall>r \<in> set rs. callback_of (snd (snd r)) \<noteq> AutoReconnectHandler))"

text \<open>Relations between a world and a later one: what an operation leaves alone.\<close>

definition same_bus :: "world \<Rightarrow> world \<Rightarrow> bool" where
  "same_bus v w =
     (listeners v = listeners w \<and> next_listener v = next_listener w \<and> clientId v = clientId w)"

definition same_session :: "world \<Rightarrow> world \<Rightarrow> bool" where
  "same_session v w =
     (connectionStatus v = connectionStatus w \<and> options v = options w
      \<and> currentRetryCount v = currentRetryCount w)"

text \<open>What the listeners after the auto-reconnect handler leave alone.\<close>

definition same_requests :: "world \<Rightarrow> world \<Rightarrow> bool" where
  "same_requests v w =
     (intercepter_calls (trace v) = intercepter_calls (trace w) \<and> inflight v = inflight w)"

text \<open>What a delivery to callbacks that call nothing leaves alone.\<close>

definition same_options :: "world \<Rightarrow> world \<Rightarrow> bool" where
  "same_options v w = (options v = options w \<and> connects (trace v) = connects (trace w))"




subsection \<open>The spec's words\<close>

text \<open>
  The event identifier of a subscription as the spec writes it,
  \<^verbatim>\<open>clientPrefix#subscribe_mqtt#topic#qos#tag\<close>, to be compared with what
  \<open>getMqttSubscribeEventId\<close> builds.
\<close>

definition event_id :: "world \<Rightarrow> string \<Rightarrow> nat \<Rightarrow> nat \<Rightarrow> string" where
  "event_id w topic qos t =
     getIdPrefix w @ ''#subscribe_mqtt#'' @ topic @ ''#'' @ show_nat qos @ ''#'' @ show_nat t"

definition default_qos :: "nat option \<Rightarrow> nat" where
  "default_qos qos = (case qos of None \<Rightarrow> 1 | Some q \<Rightarrow> q)"

text \<open>
  The three registrations of a subscription: under \<open>eventId\<close>, \<open>eventId+SUCCESS\<close> and
  \<open>eventId+FAILURE\<close>, with the tokens of its handle.
\<close>

definition registrations ::
  "string \<Rightarrow> nat \<times> nat \<times> nat \<Rightarrow> nat \<Rightarrow> nat option \<Rightarrow> nat option \<Rightarrow> (string \<times> nat \<times> listener) list" where
  "registrations eventId h onEvent onSuccess onError =
     (case h of (a, b, c) \<Rightarrow>
        [(eventId, a, Direct (AppCallback onEvent)),
         (eventId @ SUBSCRIPTION_SUCCESS_EVENT, b,
            Direct (case onSuccess of None \<Rightarrow> NoOp | Some f \<Rightarrow> AppCallback f)),
         (eventId @ SUBSCRIPTION_FAILED_EVENT, c,
            Direct (case onError of None \<Rightarrow> NoOp | Some f \<Rightarrow> AppCallback f))])"

text \<open>
  How the spec classifies a disconnect event with the reason code \<open>r\<close> for a session in
  the state \<open>w\<close>: the connect-failure variant when the status is connecting, otherwise
  the disconnect variant, tagged by the status and carrying the retry count.
\<close>

definition failure_variant :: "world \<Rightarrow> nat \<Rightarrow> Mqtt5ReasonCode \<Rightarrow> app_call list" where
  "failure_variant w f r =
     (if connectionStatus w = CONNECTING then [ConnectFailure f r] else [])"

definition disconnect_variant :: "world \<Rightarrow> nat \<Rightarrow> Mqtt5ReasonCode \<Rightarrow> app_call list" where
  "disconnect_variant w f r =
     (if connectionStatus w = CONNECTING then []
      else [OnDisconnect f r (options w)
              (case connectionStatus w of
                 DISCONNECTED \<Rightarrow> forceDisconnected
               | CONNECTED \<Rightarrow> autoDisconnected
               | CONNECTING \<Rightarrow> autoDisconnected)
              (currentRetryCount w)])"

fun variant :: "world \<Rightarrow> callback \<Rightarrow> Mqtt5ReasonCode \<Rightarrow> app_call list" where
  "variant w (ConnectFailureWrapper f) r = failure_variant w f r"
| "variant w (DisconnectWrapper f) r = disconnect_variant w f r"
| "variant w cb r = []"

text \<open>
  What one listener shows the application of the event \<open>ack\<close>. Behind the try/catch of
  \<^verbatim>\<open>onDisconnectInterceptor\<close> a callback that throws is called again with the reason
  code \<open>DEFAULT\<close>.
\<close>

fun surfaced_to :: "(app_call \<Rightarrow> bool) \<Rightarrow> world \<Rightarrow> MqttEvent \<Rightarrow> listener \<Rightarrow> app_call list" where
  "surfaced_to throws w ack (Direct cb) = variant w cb (reasonCode ack)"
| "surfaced_to throws w ack (Intercepted cb) =
     variant w cb (reasonCode ack)
     @ (if list_ex throws (variant w cb (reasonCode ack)) then variant w cb DEFAULT else [])"

text \<open>
  A shallow override in the spec's words (section 3: the options are merged, never
  wholesale replaced, so unspecified fields persist): a property that the override
  specifies is taken from the override, every other property is the stored one.
\<close>

definition persists :: "'a property \<Rightarrow> 'a property \<Rightarrow> 'a property \<Rightarrow> bool" where
  "persists stored new merged = (case new of Absent \<Rightarrow> merged = stored | _ \<Rightarrow> merged = new)"

definition shallow_merge ::
  "MqttOptions option \<Rightarrow> MqttOptions option \<Rightarrow> MqttOptions option \<Rightarrow> bool" where
  "shallow_merge stored new merged =
     (case new of
        None \<Rightarrow> merged = stored
      | Some n \<Rightarrow>
          (case merged of
             None \<Rightarrow> False
           | Some m \<Rightarrow>
               (let s = (case stored of None \<Rightarrow> no_options | Some bag \<Rightarrow> bag)
                in persists (keepAlive s) (keepAlive n) (keepAlive m)
                   \<and> persists (username s) (username n) (username m)
                   \<and> persists (password s) (password n) (password m)
                   \<and> persists (cleanSession s) (cleanSession n) (cleanSession m)
                   \<and> persists (autoReconnect s) (autoReconnect n) (autoReconnect m)
                   \<and> persists (retryCount s) (retryCount n) (retryCount m)
                   \<and> persists (backoffTime s) (backoffTime n) (backoffTime m)
                   \<and> persists (maxBackoffTime s) (maxBackoffTime n) (maxBackoffTime m)
                   \<and> persists (jitter s) (jitter n) (jitter m)
                   \<and> persists (enableSslConfig s) (enableSslConfig n) (enableSslConfig m))))"

text \<open>
  A method call that changes neither the status nor the options nor the retry count:
  every method but \<^verbatim>\<open>connect()\<close> and \<^verbatim>\<open>disconnect()\<close>.
\<close>

fun keeps_session :: "api_call \<Rightarrow> bool" where
  "keeps_session (CallConnect opts) = False"
| "keeps_session CallDisconnect = False"
| "keeps_session m = True"

text \<open>
  The constructor drops the handles of its own two registrations (lines 72 and 99), so
  the application does not hold the tokens \<open>0\<close> and \<open>1\<close>. A method call that leaves
  the constructor's registrations in the bus: any but \<^verbatim>\<open>remove()\<close>, the handles
  being the application's own.
\<close>

fun calm_method :: "api_call \<Rightarrow> bool" where
  "calm_method CallRemove = False"
| "calm_method (CallTokenRemove t) = (1 < t)"
| "calm_method (CallSubscriptionRemove (a, b, c)) = (1 < a \<and> 1 < b \<and> 1 < c)"
| "calm_method m = True"

text \<open>An action of a history that does so, the calls its callbacks make included.\<close>

fun calm :: "action \<Rightarrow> bool" where
  "calm Remove = False"
| "calm (TokenRemove t) = (1 < t)"
| "calm (SubscriptionRemove (a, b, c)) = (1 < a \<and> 1 < b \<and> 1 < c)"
| "calm (Deliver k ack tbl) = list_all (\<lambda>(c, ms, t). list_all calm_method ms) tbl"
| "calm a = True"

text \<open>
  The retry chains of a session that are still running: a pending retry timer will call
  \<^verbatim>\<open>connection()\<close> when it fires, and so will a callback that is suspended on the
  interceptor when it goes on (the callback of a retry timer directly, the
  auto-reconnect handler through \<^verbatim>\<open>connect()\<close>).
\<close>

definition retry_chains :: "world \<Rightarrow> nat" where
  "retry_chains w = length (timers w) + length (inflight w)"

subsection \<open>Example sessions\<close>

text \<open>The client \<open>c1\<close> of the broker \<open>broker:1883\<close>, without options.\<close>

definition session_c1 :: world where
  "session_c1 = constructor ''c1'' ''broker'' 1883 None"

definition one_subscription :: "(nat \<times> nat \<times> nat) \<times> world" where
  "one_subscription = subscribe ''t'' None 1 None None session_c1"

definition second_subscription :: "(nat \<times> nat \<times> nat) \<times> world" where
  "second_subscription = subscribe ''t'' None 2 None None (snd one_subscription)"

text \<open>Two subscriptions to the topic \<open>t\<close>, then \<^verbatim>\<open>remove()\<close>.\<close>

definition two_subscriptions :: world where
  "two_subscriptions =
     run [Subscribe ''t'' None 1 None None, Subscribe ''t'' None 2 None None, Remove]
       (constructor ''c1'' ''broker'' 1883 None)"

text \<open>Options that ask for a session that is not clean.\<close>

definition stubborn :: MqttOptions where
  "stubborn = no_options\<lparr>cleanSession := Value False\<rparr>"

text \<open>Three retries from a base delay of \<open>100\<close>, no jitter.\<close>

definition retry3 :: "int \<Rightarrow> MqttOptions" where
  "retry3 cap =
     no_options\<lparr>retryCount := Value 3, backoffTime := Value 100, maxBackoffTime := Value cap\<rparr>"

definition connected_event :: MqttEvent where
  "connected_event = \<lparr>reasonCode = DEFAULT, body = []\<rparr>"

definition dropped :: MqttEvent where
  "dropped = \<lparr>reasonCode = REASON 135, body = []\<rparr>"

definition refreshed :: MqttOptions where
  "refreshed = no_options\<lparr>username := Value ''u''\<rparr>"

text \<open>The client has called \<^verbatim>\<open>connect()\<close> once; its first retry timer is pending.\<close>

definition connected_twice :: world where
  "connected_twice = run [Connect None] (constructor ''c1'' ''broker'' 1883 (Some (retry3 1000)))"



text \<open>A connected session with \<open>autoReconnect\<close> and the interceptor \<open>7\<close>.\<close>

definition reconnecting :: world where
  "reconnecting =
     run [SetOnReconnectIntercepter 7, Connect None,
          Emit ''c1CONNECTED'' connected_event never_throws]
       (constructor ''c1'' ''broker'' 1883 (Some (no_options\<lparr>autoReconnect := Value True\<rparr>)))"

text \<open>
  A session that was constructed without \<open>autoReconnect\<close> and enables it with
  \<^verbatim>\<open>connect()\<close>, and a session that was constructed with it and has called
  \<^verbatim>\<open>remove()\<close>; both have the interceptor \<open>7\<close> and are connected.
\<close>

definition enabled_late :: world where
  "enabled_late =
     run [SetOnReconnectIntercepter 7, Connect (Some (no_options\<lparr>autoReconnect := Value True\<rparr>)),
          Emit ''c1CONNECTED'' connected_event never_throws]
       (constructor ''c1'' ''broker'' 1883 None)"

definition removed_session :: world where
  "removed_session =
     run [SetOnReconnectIntercepter 7, Connect None,
          Emit ''c1CONNECTED'' connected_event never_throws, Remove]
       (constructor ''c1'' ''broker'' 1883 (Some (no_options\<lparr>autoReconnect := Value True\<rparr>)))"

text \<open>
  A session with a connect-failure callback \<open>9\<close> and a disconnect callback \<open>8\<close> that
  has called \<^verbatim>\<open>connect()\<close> and then \<^verbatim>\<open>disconnect()\<close>.
\<close>

definition watched :: world where
  "watched =
     run [SetOnConnectFailureCallback 9, SetOnDisconnectCallback 8, Connect None, Disconnect]
       (constructor ''c1'' ''broker'' 1883 (Some (retry3 1000)))"

text \<open>The same session while it is connecting, and once it is connected.\<close>

definition watching :: world where
  "watching =
     run [SetOnConnectFailureCallback 9, SetOnDisconnectCallback 8, Connect None]
       (constructor ''c1'' ''broker'' 1883 (Some (retry3 1000)))"

definition watched_connected :: world where
  "watched_connected =
     run [SetOnConnectFailureCallback 9, SetOnDisconnectCallback 8, Connect None,
          Emit ''c1CONNECTED'' connected_event never_throws]
       (constructor ''c1'' ''broker'' 1883 (Some (retry3 1000)))"

text \<open>
  The connect-failure callback \<open>9\<close> gives up when it is told of the reason code
  \<open>135\<close>: it calls \<^verbatim>\<open>disconnect()\<close>.
\<close>

definition hangs_up :: behaviour where
  "hangs_up = scripted [(ConnectFailure 9 (REASON 135), [CallDisconnect], False)]"

text \<open>
  The first retry timer of a session with the interceptor \<open>7\<close> has fired, and its
  callback waits for the interceptor's answer.
\<close>

definition stale_retry :: world where
  "stale_retry =
     run [SetOnReconnectIntercepter 7, Connect None, FireTimer 0 CONNECTING]
       (constructor ''c1'' ''broker'' 1883 (Some (retry3 1000)))"

section \<open>Lemmas about the model\<close>

subsection \<open>Whatever every step preserves\<close>

lemma run_listener_Intercepted:
  "run_listener (Intercepted cb) ack beh w =
     (if fst (run_callback cb ack beh w)
      then snd (run_callback cb \<lparr>reasonCode = DEFAULT, body = []\<rparr> beh (snd (run_callback cb ack beh w)))
      else snd (run_callback cb ack beh w))"
  by (simp add: split_def)

lemma call_app_quiet: "call_app (quiet thr) c w = (thr c, emit_effect (App c) w)"
  by (simp add: call_app_def quiet_def)

lemma emit_foldl:
  "emit k ack thr w = foldl (\<lambda>v l. run_listener l ack (quiet thr) v) w (handlers_for k w)"
  by (simp add: emit_def deliver_def)

lemma listener_preserves:
  assumes "\<And>cb a v. P v \<Longrightarrow> P (snd (run_callback cb a beh v))" and "P w"
  shows "P (run_listener l ack beh w)"
  using assms by (cases l) (simp_all add: run_listener_Intercepted del: run_listener.simps(2))

lemma foldl_preserves:
  assumes "\<And>l v. P v \<Longrightarrow> P (f v l)" and "P w"
  shows "P (foldl f w ls)"
  using assms(2) by (induction ls arbitrary: w) (simp_all add: assms(1))

lemma foldl_preserves_on:
  assumes "\<And>l v. l \<in> set ls \<Longrightarrow> P v \<Longrightarrow> P (f v l)" and "P w"
  shows "P (foldl f w ls)"
  using assms by (induction ls arbitrary: w) simp_all

lemma deliver_preserves:
  assumes "\<And>cb a v. P v \<Longrightarrow> P (snd (run_callback cb a beh v))" and "P w"
  shows "P (deliver k ack beh w)"
  unfolding deliver_def
proof (rule foldl_preserves)
  show "P w" by (rule assms(2))
  show "P (run_listener l ack beh v)" if "P v" for l v
    using assms(1) that by (rule listener_preserves)
qed

lemma emit_preserves:
  assumes "\<And>cb a v. P v \<Longrightarrow> P (snd (run_callback cb a (quiet thr) v))" and "P w"
  shows "P (emit k ack thr w)"
  unfolding emit_def using assms by (rule deliver_preserves)

lemma settle_preserves:
  assumes "\<And>k r v. P v \<Longrightarrow> P (resume k r v)" and "\<And>xs. P (w\<lparr>inflight := xs\<rparr>)" and "P w"
  shows "P (settle n out w)"
  using assms by (simp add: settle_def Let_def split_def split: awaited.splits outcome.splits)

lemma api_closedI:
  assumes "\<And>v opts. P v \<Longrightarrow> P (connect opts v)"
    and "\<And>v. P v \<Longrightarrow> P (disconnect v)"
    and "\<And>v. P v \<Longrightarrow> P (remove v)"
    and "\<And>v k l. P v \<Longrightarrow> callback_of l \<noteq> ConnectedHandler \<Longrightarrow> callback_of l \<noteq> AutoReconnectHandler
           \<Longrightarrow> P (snd (addListener k l v))"
    and "\<And>v t. P v \<Longrightarrow> P (token_remove t v)"
    and "\<And>v t q. P v \<Longrightarrow> P (emit_effect (SubscribeMqtt (fst (getMqttSubscribeEventId t q v)) (clientId v) t q) (snd (getMqttSubscribeEventId t q v)))"
    and "\<And>v f. P v \<Longrightarrow> P (setOnReconnectIntercepter f v)"
  shows "api_closed P"
  unfolding api_closed_def using assms by blast

lemma api_closedD:
  assumes "api_closed P" and "P v"
  shows "P (connect opts v)"
    and "P (disconnect v)"
    and "P (remove v)"
    and "callback_of l \<noteq> ConnectedHandler \<Longrightarrow> callback_of l \<noteq> AutoReconnectHandler
           \<Longrightarrow> P (snd (addListener k l v))"
    and "P (token_remove t v)"
    and "P (emit_effect (SubscribeMqtt (fst (getMqttSubscribeEventId tp q v)) (clientId v) tp q) (snd (getMqttSubscribeEventId tp q v)))"
    and "P (setOnReconnectIntercepter f v)"
  using assms by (simp_all add: api_closed_def)

lemma api_preserves:
  assumes "api_closed P" and "P w"
  shows "P (connect opts w)"
    and "P (disconnect w)"
    and "P (remove w)"
    and "P (snd (subscribe tp q e s f w))"
    and "P (subscription_remove h w)"
    and "P (setOnReconnectIntercepter g w)"
    and "P (snd (setOnConnectCallback (AppCallback g) w))"
    and "P (snd (setOnConnectFailureCallback g w))"
    and "P (snd (setOnDisconnectCallback g w))"
    and "P (token_remove t w)"
proof -
  note d = api_closedD [OF assms(1)]
  show "P (connect opts w)" "P (disconnect w)" "P (remove w)" "P (setOnReconnectIntercepter g w)"
    "P (token_remove t w)"
    using assms(2) by (rule d)+
  show "P (snd (setOnConnectCallback (AppCallback g) w))"
    "P (snd (setOnConnectFailureCallback g w))"
    "P (snd (setOnDisconnectCallback g w))"
    using d(4) [OF assms(2)]
    by (simp_all add: setOnConnectCallback_def setOnConnectFailureCallback_def
        setOnDisconnectCallback_def onDisconnectInterceptor_def)
  show "P (subscription_remove h w)"
    using d(5) assms(2) by (simp add: subscription_remove_def split_def)
  have cid: "clientId (snd (getMqttSubscribeEventId t' q' w)) = clientId w" for t' q'
    by (simp add: getMqttSubscribeEventId_def Let_def)
  have add: "P (snd (addListener k l v))"
    if "P v" "callback_of l \<noteq> ConnectedHandler" "callback_of l \<noteq> AutoReconnectHandler" for k l v
    using that by (rule d(4))
  have sub: "P (emit_effect (SubscribeMqtt (fst (getMqttSubscribeEventId t' q' w)) (clientId w) t' q')
               (snd (getMqttSubscribeEventId t' q' w)))" for t' q'
    using assms(2) by (rule d(6))
  show "P (snd (subscribe tp q e s f w))"
    using sub add cid
    by (simp add: subscribe_def Let_def split_def split: option.splits)
qed

lemma invoke_preserves:
  assumes "api_closed P" and "P w"
  shows "P (invoke m w)"
  by (cases m) (simp_all add: api_preserves [OF assms])

lemma call_app_preserves:
  assumes "\<And>v m. m \<in> set (fst (beh c)) \<Longrightarrow> P v \<Longrightarrow> P (invoke m v)"
    and "P (emit_effect (App c) w)"
  shows "P (snd (call_app beh c w))"
  unfolding call_app_def snd_conv
  using assms by (rule foldl_preserves_on)

lemma step_preserves:
  assumes "api_closed P"
    and "\<And>v k a beh. P v \<Longrightarrow> P (deliver k a beh v)"
    and "\<And>v h s. P v \<Longrightarrow> P (fire_timer h s v)"
    and "\<And>v n out. P v \<Longrightarrow> P (settle n out v)"
    and "P w"
  shows "P (step a w)"
  by (cases a) (simp_all add: api_preserves [OF assms(1,5)] assms(2-5) emit_def)

lemma run_preserves:
  assumes "\<And>a v. P v \<Longrightarrow> P (step a v)" and "P w"
  shows "P (run as w)"
  unfolding run_def using assms(2) by (induction as arbitrary: w) (simp_all add: assms(1))

lemma run_preserves_on:
  assumes "\<And>a v. a \<in> set as \<Longrightarrow> P v \<Longrightarrow> P (step a v)" and "P w"
  shows "P (run as w)"
  unfolding run_def using assms by (rule foldl_preserves_on)

lemma run_append: "run (as @ bs) w = run bs (run as w)"
  by (simp add: run_def)

subsection \<open>Traces\<close>

lemma connects_append: "connects (xs @ ys) = connects xs @ connects ys"
  by (induction xs rule: connects.induct) simp_all

lemma scheduled_append: "scheduled (xs @ ys) = scheduled xs @ scheduled ys"
  by (induction xs rule: scheduled.induct) simp_all

lemma surfaced_append: "surfaced (xs @ ys) = surfaced xs @ surfaced ys"
  by (induction xs rule: surfaced.induct) simp_all

lemma intercepter_calls_append:
  "intercepter_calls (xs @ ys) = intercepter_calls xs @ intercepter_calls ys"
  by (induction xs rule: intercepter_calls.induct) simp_all

subsection \<open>Connecting\<close>

lemma resetOptions_fields:
  "currentRetryCount (resetOptions opts w) = currentRetryCount w"
  "connectionStatus (resetOptions opts w) = connectionStatus w"
  "trace (resetOptions opts w) = trace w"
  "timers (resetOptions opts w) = timers w"
  "retryTimer (resetOptions opts w) = retryTimer w"
  "next_timer (resetOptions opts w) = next_timer w"
  "clientId (resetOptions opts w) = clientId w"
  "mqtt5DisconnectReasonCode (resetOptions opts w) = mqtt5DisconnectReasonCode w"
  by (simp_all add: resetOptions_def split: option.splits)

lemma may_retry_frame:
  "may_retry (w\<lparr>trace := t\<rparr>) = may_retry w"
  "may_retry (w\<lparr>timers := ts\<rparr>) = may_retry w"
  "backoff_call (w\<lparr>trace := t\<rparr>) = backoff_call w"
  "backoff_call (w\<lparr>timers := ts\<rparr>) = backoff_call w"
  by (simp_all add: may_retry_def backoff_call_def split: option.splits)

lemma connection_unfold:
  "connection w =
     (if connectionStatus w \<noteq> CONNECTING then w
      else if may_retry w
      then w\<lparr>trace := trace w @ [ConnectMqtt (clientId w) (connect_options (options w)),
                                  ClearTimeout (retryTimer w),
                                  SetTimeout (next_timer w) (backoff_call w)],
             timers := filter (\<lambda>(i, a). Some i \<noteq> retryTimer w) (timers w)
                         @ [(next_timer w, backoff_call w)],
             next_timer := Suc (next_timer w),
             retryTimer := Some (next_timer w)\<rparr>
      else w\<lparr>trace := trace w @ [ConnectMqtt (clientId w) (connect_options (options w)),
                                  ClearTimeout (retryTimer w)],
             timers := filter (\<lambda>(i, a). Some i \<noteq> retryTimer w) (timers w)\<rparr>)"
  by (simp add: connection_def emit_effect_def clearTimeout_def setTimeout_def Let_def
      may_retry_frame)

lemma connection_connects:
  "connectionStatus u = CONNECTING \<Longrightarrow>
   connects (trace (connection u)) = connects (trace u) @ [connect_options (options u)]"
  by (simp add: connection_unfold connects_append)

lemma status_connect: "connectionStatus (connect opts w) = CONNECTING"
  by (simp add: connect_def connection_def emit_effect_def clearTimeout_def
      setTimeout_def Let_def resetConnectVariables_def resetOptions_def split: option.splits)

lemma status_prepare: "connectionStatus (resetOptions opts (resetConnectVariables w)) = CONNECTING"
  by (simp add: resetOptions_fields) (simp add: resetConnectVariables_def)

lemma connect_fields:
  "connectionStatus (connect new v) = CONNECTING"
  "currentRetryCount (connect new v) = 0"
  "options (connect new v) =
     (case new of None \<Rightarrow> options v
      | Some n \<Rightarrow> Some (spread (case options v of None \<Rightarrow> no_options | Some old \<Rightarrow> old) n))"
  "connects (trace (connect new v)) = connects (trace v) @ [connect_options (options (connect new v))]"
proof -
  define u where "u = resetOptions new (resetConnectVariables v)"
  have u: "connectionStatus u = CONNECTING" "currentRetryCount u = 0" "trace u = trace v"
    "options u = (case new of None \<Rightarrow> options v
      | Some n \<Rightarrow> Some (spread (case options v of None \<Rightarrow> no_options | Some old \<Rightarrow> old) n))"
    by (simp_all add: u_def resetOptions_def resetConnectVariables_def split: option.splits)
  have c: "connect new v = connection u" by (simp add: connect_def u_def)
  show "connectionStatus (connect new v) = CONNECTING"
    "currentRetryCount (connect new v) = 0"
    "options (connect new v) =
       (case new of None \<Rightarrow> options v
        | Some n \<Rightarrow> Some (spread (case options v of None \<Rightarrow> no_options | Some old \<Rightarrow> old) n))"
    unfolding c using u by (simp_all add: connection_unfold)
  have "options (connection u) = options u" by (simp add: connection_unfold)
  then show "connects (trace (connect new v))
      = connects (trace v) @ [connect_options (options (connect new v))]"
    unfolding c using u(1,3) by (simp add: connection_connects)
qed

lemma persists_override: "persists a b (override a b)"
  by (cases b) (simp_all add: persists_def override_def)

lemma shallow_merge_spread:
  "shallow_merge stored new
     (case new of None \<Rightarrow> stored
      | Some n \<Rightarrow> Some (spread (case stored of None \<Rightarrow> no_options | Some old \<Rightarrow> old) n))"
  by (cases new) (simp_all add: shallow_merge_def spread_def persists_override)

lemma connect_merges: "shallow_merge (options v) new (options (connect new v))"
  using shallow_merge_spread [of "options v" new] by (simp add: connect_fields(3))

lemma connect_inflight: "inflight (connect new v) = inflight v"
  by (simp add: connect_def connection_unfold resetOptions_def resetConnectVariables_def
      split: option.splits)

subsection \<open>Every connect call asks for a clean session\<close>

lemma clean_connect_options: "arg_cleanSession (connect_options opts)"
  by (simp add: connect_options_def split: option.splits)

lemma clean_trace_eq: "trace v = trace w \<Longrightarrow> clean_inv v = clean_inv w"
  by (simp add: clean_inv_def)

lemma clean_connection: "clean_inv w \<Longrightarrow> clean_inv (connection w)"
  by (simp add: clean_inv_def connection_def emit_effect_def clearTimeout_def setTimeout_def
      Let_def connects_append clean_connect_options)

lemma clean_resetOptions: "clean_inv (resetOptions opts w) = clean_inv w"
  by (simp add: clean_inv_def resetOptions_def split: option.splits)

lemma clean_connect: "clean_inv w \<Longrightarrow> clean_inv (connect opts w)"
  unfolding connect_def
  by (rule clean_connection) (simp add: clean_resetOptions, simp add: clean_inv_def resetConnectVariables_def)

lemma clean_api: "api_closed clean_inv"
proof (rule api_closedI)
  show "clean_inv (remove v)" if "clean_inv v" for v
    using that by (simp add: clean_inv_def remove_def removeAllListeners_def emit_effect_def connects_append)
  show "clean_inv (emit_effect (SubscribeMqtt (fst (getMqttSubscribeEventId t q v)) (clientId v) t q)
          (snd (getMqttSubscribeEventId t q v)))" if "clean_inv v" for v t q
    using that by (simp add: clean_inv_def getMqttSubscribeEventId_def Let_def emit_effect_def connects_append)
  show "clean_inv (disconnect v)" if "clean_inv v" for v
    using that by (simp add: clean_inv_def disconnect_def emit_effect_def connects_append)
  show "clean_inv (snd (addListener k l v))" if "clean_inv v" for v k l
    using that by (simp add: clean_inv_def addListener_def)
  show "clean_inv (token_remove t v)" if "clean_inv v" for v t
    using that by (simp add: clean_inv_def token_remove_def)
  show "clean_inv (setOnReconnectIntercepter f v)" if "clean_inv v" for v f
    using that by (simp add: clean_inv_def setOnReconnectIntercepter_def)
qed (simp_all add: clean_connect)

lemma clean_ask: "clean_inv (ask_intercepter k w) = clean_inv w"
  by (simp add: clean_inv_def ask_intercepter_def emit_effect_def connects_append split: option.splits)

lemma clean_call_app: "clean_inv w \<Longrightarrow> clean_inv (snd (call_app beh c w))"
  by (rule call_app_preserves [where P = clean_inv])
     (simp_all add: invoke_preserves [OF clean_api], simp add: clean_inv_def emit_effect_def connects_append)

lemma clean_callback: "clean_inv w \<Longrightarrow> clean_inv (snd (run_callback cb ack beh w))"
  by (cases cb) (simp_all add: clean_ask clean_call_app, simp_all add: clean_inv_def)

lemma clean_resume: "clean_inv w \<Longrightarrow> clean_inv (resume k r w)"
proof (cases k)
  case RetryK
  assume "clean_inv w"
  then show ?thesis using RetryK by (simp add: clean_connection clean_resetOptions)
next
  case (ReconnectK ack)
  assume "clean_inv w"
  then have "clean_inv (connect r w)" by (rule clean_connect)
  then show ?thesis using ReconnectK by (simp add: clean_inv_def)
qed

lemma clean_deliver: "clean_inv w \<Longrightarrow> clean_inv (deliver k a beh w)"
  by (rule deliver_preserves [where P = clean_inv]) (rule clean_callback)

lemma clean_fire_timer: "clean_inv w \<Longrightarrow> clean_inv (fire_timer h s w)"
  by (simp add: fire_timer_def Let_def clean_ask) (simp add: clean_inv_def)

lemma clean_settle: "clean_inv w \<Longrightarrow> clean_inv (settle n out w)"
  by (rule settle_preserves [where P = clean_inv]) (simp_all add: clean_resume, simp add: clean_inv_def)

lemma clean_step: "clean_inv w \<Longrightarrow> clean_inv (step a w)"
  by (rule step_preserves [where P = clean_inv])
     (simp_all add: clean_api clean_deliver clean_fire_timer clean_settle)

lemma clean_constructor: "clean_inv (constructor cid h p opts)"
  by (simp add: clean_inv_def constructor_def fresh_def Let_def emit_effect_def
      setOnConnectCallback_def onDisconnectInterceptor_def addListener_def)

lemma clean_run: "clean_inv (run as (constructor cid h p opts))"
  by (rule run_preserves [where P = clean_inv]) (simp_all add: clean_step clean_constructor)

subsection \<open>At most one timer is pending\<close>

lemma timer_inv_fields:
  "timers v = timers w \<Longrightarrow> retryTimer v = retryTimer w \<Longrightarrow> next_timer v = next_timer w
   \<Longrightarrow> timer_inv v = timer_inv w"
  by (simp add: timer_inv_def)

lemma timer_inv_clear: "timer_inv w \<Longrightarrow> filter (\<lambda>(i, a). Some i \<noteq> retryTimer w) (timers w) = []"
  by (auto simp: timer_inv_def filter_empty_conv)

lemma timer_connection: "timer_inv w \<Longrightarrow> timer_inv (connection w)"
  by (simp add: connection_def emit_effect_def clearTimeout_def setTimeout_def Let_def timer_inv_clear)
     (auto simp: timer_inv_def)

lemma timer_resetOptions: "timer_inv (resetOptions opts w) = timer_inv w"
  by (rule timer_inv_fields) (simp_all add: resetOptions_def split: option.splits)

lemma timer_connect: "timer_inv w \<Longrightarrow> timer_inv (connect opts w)"
  unfolding connect_def
  by (rule timer_connection) (simp add: timer_resetOptions, simp add: timer_inv_def resetConnectVariables_def)

lemma timer_api: "api_closed timer_inv"
proof (rule api_closedI)
  show "timer_inv (remove v)" if "timer_inv v" for v
    using that by (simp add: timer_inv_def remove_def removeAllListeners_def emit_effect_def)
  show "timer_inv (emit_effect (SubscribeMqtt (fst (getMqttSubscribeEventId t q v)) (clientId v) t q)
          (snd (getMqttSubscribeEventId t q v)))" if "timer_inv v" for v t q
    using that by (simp add: timer_inv_def getMqttSubscribeEventId_def Let_def emit_effect_def)
  show "timer_inv (disconnect v)" if "timer_inv v" for v
    using that by (simp add: timer_inv_def disconnect_def emit_effect_def)
  show "timer_inv (snd (addListener k l v))" if "timer_inv v" for v k l
    using that by (simp add: timer_inv_def addListener_def)
  show "timer_inv (token_remove t v)" if "timer_inv v" for v t
    using that by (simp add: timer_inv_def token_remove_def)
  show "timer_inv (setOnReconnectIntercepter f v)" if "timer_inv v" for v f
    using that by (simp add: timer_inv_def setOnReconnectIntercepter_def)
qed (simp_all add: timer_connect)

lemma timer_ask: "timer_inv (ask_intercepter k w) = timer_inv w"
  by (rule timer_inv_fields) (simp_all add: ask_intercepter_def emit_effect_def split: option.splits)

lemma timer_call_app: "timer_inv w \<Longrightarrow> timer_inv (snd (call_app beh c w))"
  by (rule call_app_preserves [where P = timer_inv])
     (simp_all add: invoke_preserves [OF timer_api], simp add: timer_inv_def emit_effect_def)

lemma timer_callback: "timer_inv w \<Longrightarrow> timer_inv (snd (run_callback cb ack beh w))"
  by (cases cb) (simp_all add: timer_ask timer_call_app, simp_all add: timer_inv_def)

lemma timer_resume: "timer_inv w \<Longrightarrow> timer_inv (resume k r w)"
proof (cases k)
  case RetryK
  assume "timer_inv w"
  then show ?thesis using RetryK by (simp add: timer_connection timer_resetOptions)
next
  case (ReconnectK ack)
  assume "timer_inv w"
  then have "timer_inv (connect r w)" by (rule timer_connect)
  then show ?thesis using ReconnectK by (simp add: timer_inv_def)
qed

lemma timer_deliver: "timer_inv w \<Longrightarrow> timer_inv (deliver k a beh w)"
  by (rule deliver_preserves [where P = timer_inv]) (rule timer_callback)

lemma timer_fire_timer: "timer_inv w \<Longrightarrow> timer_inv (fire_timer h s w)"
  by (simp add: fire_timer_def Let_def timer_ask) (auto simp: timer_inv_def distinct_map_filter)

lemma timer_settle: "timer_inv w \<Longrightarrow> timer_inv (settle n out w)"
  by (rule settle_preserves [where P = timer_inv]) (simp_all add: timer_resume, simp add: timer_inv_def)

lemma timer_step: "timer_inv w \<Longrightarrow> timer_inv (step a w)"
  by (rule step_preserves [where P = timer_inv])
     (simp_all add: timer_api timer_deliver timer_fire_timer timer_settle)

lemma timer_constructor: "timer_inv (constructor cid h p opts)"
  by (simp add: timer_inv_def constructor_def fresh_def Let_def emit_effect_def
      setOnConnectCallback_def onDisconnectInterceptor_def addListener_def)

lemma timer_run: "timer_inv (run as (constructor cid h p opts))"
  by (rule run_preserves [where P = timer_inv]) (simp_all add: timer_step timer_constructor)

lemma timer_inv_at_most_one: "timer_inv w \<Longrightarrow> length (timers w) \<le> 1"
proof (cases "timers w")
  case Nil
  then show ?thesis by simp
next
  case (Cons x xs)
  assume i: "timer_inv w"
  show ?thesis
  proof (cases xs)
    case Nil
    then show ?thesis using Cons by simp
  next
    case (Cons y ys)
    then have "fst x = fst y" and "fst x \<noteq> fst y"
      using i \<open>timers w = x # xs\<close> by (auto simp: timer_inv_def)
    then show ?thesis by simp
  qed
qed

lemma timer_inv_prepare: "timer_inv w \<Longrightarrow> timer_inv (resetOptions opts (resetConnectVariables w))"
  by (simp add: timer_resetOptions) (simp add: timer_inv_def resetConnectVariables_def)

lemma connection_connecting:
  assumes "connectionStatus w = CONNECTING" and "timer_inv w"
  shows "currentRetryCount (connection w) = currentRetryCount w"
    and "connectionStatus (connection w) = CONNECTING"
    and "options (connection w) = options w"
    and "connects (trace (connection w)) = connects (trace w) @ [connect_options (options w)]"
    and "timers (connection w) = (if may_retry w then [(next_timer w, backoff_call w)] else [])"
    and "scheduled (trace (connection w)) =
           scheduled (trace w) @ (if may_retry w then [backoff_call w] else [])"
  using assms timer_inv_clear [OF assms(2)]
  by (simp_all add: connection_unfold connects_append scheduled_append)

subsection \<open>A connected session has no stored reason code\<close>

lemma reason_connection: "reason_inv (connection w) = reason_inv w"
  by (simp add: reason_inv_def connection_def emit_effect_def clearTimeout_def setTimeout_def Let_def)

lemma reason_connect: "reason_inv (connect opts w)"
  by (simp add: reason_inv_def connect_def connection_def emit_effect_def clearTimeout_def
      setTimeout_def Let_def resetConnectVariables_def resetOptions_def split: option.splits)

lemma reason_api: "api_closed reason_inv"
proof (rule api_closedI)
  show "reason_inv (remove v)" if "reason_inv v" for v
    using that by (simp add: reason_inv_def remove_def removeAllListeners_def emit_effect_def)
  show "reason_inv (emit_effect (SubscribeMqtt (fst (getMqttSubscribeEventId t q v)) (clientId v) t q)
          (snd (getMqttSubscribeEventId t q v)))" if "reason_inv v" for v t q
    using that by (simp add: reason_inv_def getMqttSubscribeEventId_def Let_def emit_effect_def)
  show "reason_inv (disconnect v)" if "reason_inv v" for v
    using that by (simp add: reason_inv_def disconnect_def emit_effect_def)
  show "reason_inv (snd (addListener k l v))" if "reason_inv v" for v k l
    using that by (simp add: reason_inv_def addListener_def)
  show "reason_inv (token_remove t v)" if "reason_inv v" for v t
    using that by (simp add: reason_inv_def token_remove_def)
  show "reason_inv (setOnReconnectIntercepter f v)" if "reason_inv v" for v f
    using that by (simp add: reason_inv_def setOnReconnectIntercepter_def)
qed (simp_all add: reason_connect)

lemma reason_ask: "reason_inv (ask_intercepter k w) = reason_inv w"
  by (simp add: reason_inv_def ask_intercepter_def emit_effect_def split: option.splits)

lemma reason_call_app: "reason_inv w \<Longrightarrow> reason_inv (snd (call_app beh c w))"
  by (rule call_app_preserves [where P = reason_inv])
     (simp_all add: invoke_preserves [OF reason_api], simp add: reason_inv_def emit_effect_def)

lemma reason_callback: "reason_inv w \<Longrightarrow> reason_inv (snd (run_callback cb ack beh w))"
  by (cases cb) (simp_all add: reason_ask reason_call_app, simp_all add: reason_inv_def)

lemma reason_resume: "reason_inv w \<Longrightarrow> reason_inv (resume k r w)"
  by (cases k) (simp_all add: reason_connection, simp_all add: reason_inv_def resetOptions_def
      status_connect split: option.splits)

lemma reason_deliver: "reason_inv w \<Longrightarrow> reason_inv (deliver k a beh w)"
  by (rule deliver_preserves [where P = reason_inv]) (rule reason_callback)

lemma reason_fire_timer: "reason_inv w \<Longrightarrow> reason_inv (fire_timer h s w)"
  by (simp add: fire_timer_def Let_def reason_ask) (simp add: reason_inv_def)

lemma reason_settle: "reason_inv w \<Longrightarrow> reason_inv (settle n out w)"
  by (rule settle_preserves [where P = reason_inv]) (simp_all add: reason_resume, simp add: reason_inv_def)

lemma reason_step: "reason_inv w \<Longrightarrow> reason_inv (step a w)"
  by (rule step_preserves [where P = reason_inv])
     (simp_all add: reason_api reason_deliver reason_fire_timer reason_settle)

lemma reason_constructor: "reason_inv (constructor cid h p opts)"
  by (simp add: reason_inv_def constructor_def fresh_def Let_def emit_effect_def
      setOnConnectCallback_def onDisconnectInterceptor_def addListener_def)

lemma reason_run: "reason_inv (run as (constructor cid h p opts))"
  by (rule run_preserves [where P = reason_inv]) (simp_all add: reason_step reason_constructor)

subsection \<open>The bus\<close>

lemma same_bus_refl: "same_bus w w"
  by (simp add: same_bus_def)

lemma same_bus_trans: "same_bus u v \<Longrightarrow> same_bus v w \<Longrightarrow> same_bus u w"
  by (simp add: same_bus_def)

lemma same_bus_connection: "same_bus (connection w) w"
  by (simp add: same_bus_def connection_def emit_effect_def clearTimeout_def setTimeout_def Let_def)

lemma same_bus_resetOptions: "same_bus (resetOptions opts w) w"
  by (simp add: same_bus_def resetOptions_def split: option.splits)

lemma same_bus_connect: "same_bus (connect opts w) w"
  unfolding connect_def
  by (rule same_bus_trans [OF same_bus_connection], rule same_bus_trans [OF same_bus_resetOptions])
     (simp add: same_bus_def resetConnectVariables_def)

lemma same_bus_ask: "same_bus (ask_intercepter k w) w"
  by (simp add: same_bus_def ask_intercepter_def emit_effect_def split: option.splits)

lemma same_bus_fire_timer: "same_bus (fire_timer h s w) w"
proof -
  have "same_bus (ask_intercepter k v) w" if "same_bus v w" for k v
    using same_bus_ask that by (rule same_bus_trans)
  then show ?thesis
    by (simp add: fire_timer_def Let_def) (simp add: same_bus_def)
qed

lemma same_bus_resume: "same_bus (resume k r w) w"
proof (cases k)
  case RetryK
  then show ?thesis
    using same_bus_trans [OF same_bus_connection same_bus_resetOptions] by simp
next
  case (ReconnectK ack)
  then show ?thesis using same_bus_connect [of r w] by (simp add: same_bus_def)
qed

lemma same_bus_settle: "same_bus (settle n out w) w"
proof (rule settle_preserves [where P = "\<lambda>v. same_bus v w"])
  show "same_bus (resume k r v) w" if "same_bus v w" for k r v
    using same_bus_resume that by (rule same_bus_trans)
qed (simp_all add: same_bus_def)

text \<open>
  A property of the bus alone that the methods keep is kept by every step: the
  handlers, the timers and the suspended callbacks change the bus only through the
  methods that application callbacks call.
\<close>

lemma bus_property_callback:
  assumes "api_closed P" and "\<And>u v. same_bus u v \<Longrightarrow> P v \<Longrightarrow> P u" and "P w"
  shows "P (snd (run_callback cb ack beh w))"
proof -
  have app: "P (snd (call_app beh c w))" for c
  proof (rule call_app_preserves [where P = P])
    show "P (invoke m v)" if "P v" for m v
      using assms(1) that by (rule invoke_preserves)
    show "P (emit_effect (App c) w)"
      by (rule assms(2) [OF _ assms(3)]) (simp add: same_bus_def emit_effect_def)
  qed
  have ask: "P (ask_intercepter k w)" for k
    by (rule assms(2) [OF same_bus_ask assms(3)])
  have upd: "P (w\<lparr>currentRetryCount := 0, connectionStatus := CONNECTED,
                   mqtt5DisconnectReasonCode := None\<rparr>)"
    "P (w\<lparr>mqtt5DisconnectReasonCode := Some r\<rparr>)" for r
    by (rule assms(2) [OF _ assms(3)], simp add: same_bus_def)+
  show ?thesis
    by (cases cb) (simp_all add: app ask upd assms(3))
qed

lemma bus_property_step:
  assumes "api_closed P" and "\<And>u v. same_bus u v \<Longrightarrow> P v \<Longrightarrow> P u" and "P w"
  shows "P (step a w)"
proof (rule step_preserves [where P = P])
  show "P (deliver k a' beh v)" if "P v" for v k a' beh
  proof (rule deliver_preserves [where P = P])
    show "P (snd (run_callback cb b beh u))" if "P u" for cb b u
      using assms(1,2) that by (rule bus_property_callback)
  qed (rule that)
  show "P (fire_timer h s v)" if "P v" for v h s
    using same_bus_fire_timer that by (rule assms(2))
  show "P (settle n out v)" if "P v" for v n out
    using same_bus_settle that by (rule assms(2))
qed (rule assms(1), rule assms(3))

lemma bus_inv_same: "same_bus v w \<Longrightarrow> bus_inv v = bus_inv w"
  by (simp add: same_bus_def bus_inv_def)

lemma bus_api: "api_closed bus_inv"
proof (rule api_closedI)
  show "bus_inv (remove v)" if "bus_inv v" for v
    using that by (simp add: bus_inv_def remove_def removeAllListeners_def emit_effect_def)
  show "bus_inv (emit_effect (SubscribeMqtt (fst (getMqttSubscribeEventId t q v)) (clientId v) t q)
          (snd (getMqttSubscribeEventId t q v)))" if "bus_inv v" for v t q
    using that by (simp add: bus_inv_def getMqttSubscribeEventId_def Let_def emit_effect_def)
  show "bus_inv (disconnect v)" if "bus_inv v" for v
    using that by (simp add: bus_inv_def disconnect_def emit_effect_def)
  show "bus_inv (snd (addListener k l v))" if "bus_inv v" for v k l
    using that by (auto simp: bus_inv_def addListener_def)
  show "bus_inv (token_remove t v)" if "bus_inv v" for v t
    using that by (simp add: bus_inv_def token_remove_def)
  show "bus_inv (setOnReconnectIntercepter f v)" if "bus_inv v" for v f
    using that by (simp add: bus_inv_def setOnReconnectIntercepter_def)
qed (simp_all add: bus_inv_same [OF same_bus_connect])

lemma bus_step: "bus_inv w \<Longrightarrow> bus_inv (step a w)"
  by (rule bus_property_step [where P = bus_inv]) (simp_all add: bus_api bus_inv_same)

lemma bus_constructor: "bus_inv (constructor cid h p opts)"
  by (simp add: bus_inv_def constructor_def fresh_def Let_def emit_effect_def
      setOnConnectCallback_def onDisconnectInterceptor_def addListener_def)

lemma bus_run: "bus_inv (run as (constructor cid h p opts))"
  by (rule run_preserves [where P = bus_inv]) (simp_all add: bus_step bus_constructor)

lemma channel_inv_same: "same_bus v w \<Longrightarrow> channel_inv v = channel_inv w"
  by (simp add: same_bus_def channel_inv_def)

lemma channel_api: "api_closed channel_inv"
proof (rule api_closedI)
  show "channel_inv (remove v)" if "channel_inv v" for v
    using that by (simp add: channel_inv_def remove_def removeAllListeners_def emit_effect_def)
  show "channel_inv (emit_effect (SubscribeMqtt (fst (getMqttSubscribeEventId t q v)) (clientId v) t q)
          (snd (getMqttSubscribeEventId t q v)))" if "channel_inv v" for v t q
    using that by (simp add: channel_inv_def getMqttSubscribeEventId_def Let_def emit_effect_def)
  show "channel_inv (disconnect v)" if "channel_inv v" for v
    using that by (simp add: channel_inv_def disconnect_def emit_effect_def)
  show "channel_inv (snd (addListener k l v))"
    if "channel_inv v" "callback_of l \<noteq> ConnectedHandler" for v k l
    using that by (auto simp: channel_inv_def addListener_def)
  show "channel_inv (token_remove t v)" if "channel_inv v" for v t
    using that by (simp add: channel_inv_def token_remove_def)
  show "channel_inv (setOnReconnectIntercepter f v)" if "channel_inv v" for v f
    using that by (simp add: channel_inv_def setOnReconnectIntercepter_def)
qed (simp_all add: channel_inv_same [OF same_bus_connect])

lemma channel_step: "channel_inv w \<Longrightarrow> channel_inv (step a w)"
  by (rule bus_property_step [where P = channel_inv]) (simp_all add: channel_api channel_inv_same)

lemma channel_constructor: "channel_inv (constructor cid h p opts)"
  by (simp add: channel_inv_def constructor_def fresh_def Let_def emit_effect_def
      setOnConnectCallback_def onDisconnectInterceptor_def addListener_def)

lemma channel_run: "channel_inv (run as (constructor cid h p opts))"
  by (rule run_preserves [where P = channel_inv]) (simp_all add: channel_step channel_constructor)

lemma channels_differ: "c @ DISCONNECTED_EVENT \<noteq> c @ CONNECTED_EVENT"
  by (simp add: DISCONNECTED_EVENT_def CONNECTED_EVENT_def)

lemma no_ConnectedHandler_on_disconnect:
  assumes "channel_inv w"
  shows "\<forall>l \<in> set (handlers_for (clientId w @ DISCONNECTED_EVENT) w). callback_of l \<noteq> ConnectedHandler"
  using assms channels_differ [of "clientId w"]
  by (auto simp: channel_inv_def handlers_for_def)

lemma old_tokens_same: "same_bus v w \<Longrightarrow> old_tokens n regs v = old_tokens n regs w"
  by (simp add: same_bus_def old_tokens_def)

lemma old_tokens_api: "api_closed (old_tokens n regs)"
proof (rule api_closedI)
  show "old_tokens n regs (remove v)" if "old_tokens n regs v" for v
    using that by (simp add: old_tokens_def remove_def removeAllListeners_def emit_effect_def)
  show "old_tokens n regs (emit_effect (SubscribeMqtt (fst (getMqttSubscribeEventId t q v)) (clientId v) t q)
          (snd (getMqttSubscribeEventId t q v)))" if "old_tokens n regs v" for v t q
    using that by (simp add: old_tokens_def getMqttSubscribeEventId_def Let_def emit_effect_def)
  show "old_tokens n regs (disconnect v)" if "old_tokens n regs v" for v
    using that by (simp add: old_tokens_def disconnect_def emit_effect_def)
  show "old_tokens n regs (snd (addListener k l v))" if "old_tokens n regs v" for v k l
    using that by (auto simp: old_tokens_def addListener_def)
  show "old_tokens n regs (token_remove t v)" if "old_tokens n regs v" for v t
    using that by (simp add: old_tokens_def token_remove_def)
  show "old_tokens n regs (setOnReconnectIntercepter f v)" if "old_tokens n regs v" for v f
    using that by (simp add: old_tokens_def setOnReconnectIntercepter_def)
qed (simp_all add: old_tokens_same [OF same_bus_connect])

lemma old_tokens_step: "old_tokens n regs w \<Longrightarrow> old_tokens n regs (step a w)"
  by (rule bus_property_step [where P = "old_tokens n regs"])
     (simp_all add: old_tokens_api old_tokens_same)

lemma old_tokens_run: "old_tokens n regs w \<Longrightarrow> old_tokens n regs (run as w)"
  by (rule run_preserves [where P = "old_tokens n regs"]) (simp_all add: old_tokens_step)

subsection \<open>Decimal numbers\<close>

lemma read_nat_snoc: "read_nat (s @ [c]) = 10 * read_nat s + (of_char c - 48)"
  by (simp add: read_nat_def)

lemma read_digit: "d < 10 \<Longrightarrow> (of_char (digit_char d) :: nat) - 48 = d"
  by (simp add: digit_char_def)

lemma read_show_nat: "read_nat (show_nat n) = n"
proof (induction n rule: show_nat.induct)
  case (1 n)
  show ?case
  proof (cases "n < 10")
    case True
    then show ?thesis
      using read_nat_snoc [of "[]" "digit_char n"]
      by (simp add: show_nat.simps [of n] read_digit) (simp add: read_nat_def)
  next
    case False
    then show ?thesis
      using 1 by (simp add: show_nat.simps [of n] read_nat_snoc read_digit)
  qed
qed

lemma show_nat_inj: "show_nat m = show_nat n \<Longrightarrow> m = n"
  by (metis read_show_nat)

lemma last_show_nat: "show_nat n \<noteq> [] \<and> last (show_nat n) = digit_char (n mod 10)"
  by (simp add: show_nat.simps [of n])

lemma digit_char_not_D: "digit_char (n mod 10) \<noteq> CHR ''D''"
proof
  assume "digit_char (n mod 10) = CHR ''D''"
  then have "(of_char (digit_char (n mod 10)) :: nat) = of_char (CHR ''D'')" by simp
  then show False by (simp add: digit_char_def)
qed

subsection \<open>Subscriptions\<close>

lemma event_id_inj: "event_id w topic qos s = event_id w topic qos t \<Longrightarrow> s = t"
  by (simp add: event_id_def show_nat_inj)

lemma event_id_not_channel:
  "event_id w topic qos t \<noteq> c @ CONNECTED_EVENT"
  "event_id w topic qos t \<noteq> c @ DISCONNECTED_EVENT"
  "event_id w topic qos t @ SUBSCRIPTION_SUCCESS_EVENT \<noteq> c @ CONNECTED_EVENT"
  "event_id w topic qos t @ SUBSCRIPTION_SUCCESS_EVENT \<noteq> c @ DISCONNECTED_EVENT"
  "event_id w topic qos t @ SUBSCRIPTION_FAILED_EVENT \<noteq> c @ CONNECTED_EVENT"
  "event_id w topic qos t @ SUBSCRIPTION_FAILED_EVENT \<noteq> c @ DISCONNECTED_EVENT"
proof -
  have l: "last (event_id w topic qos t) = digit_char (t mod 10)"
    using last_show_nat [of t] by (simp add: event_id_def)
  have "last (event_id w topic qos t) \<noteq> last (c @ CONNECTED_EVENT)"
    "last (event_id w topic qos t) \<noteq> last (c @ DISCONNECTED_EVENT)"
    unfolding l by (simp_all add: CONNECTED_EVENT_def DISCONNECTED_EVENT_def digit_char_not_D)
  then show "event_id w topic qos t \<noteq> c @ CONNECTED_EVENT"
    "event_id w topic qos t \<noteq> c @ DISCONNECTED_EVENT" by auto
  have "last (event_id w topic qos t @ SUBSCRIPTION_SUCCESS_EVENT) \<noteq> last (c @ CONNECTED_EVENT)"
    "last (event_id w topic qos t @ SUBSCRIPTION_SUCCESS_EVENT) \<noteq> last (c @ DISCONNECTED_EVENT)"
    "last (event_id w topic qos t @ SUBSCRIPTION_FAILED_EVENT) \<noteq> last (c @ CONNECTED_EVENT)"
    "last (event_id w topic qos t @ SUBSCRIPTION_FAILED_EVENT) \<noteq> last (c @ DISCONNECTED_EVENT)"
    by (simp_all add: CONNECTED_EVENT_def DISCONNECTED_EVENT_def SUBSCRIPTION_SUCCESS_EVENT_def
        SUBSCRIPTION_FAILED_EVENT_def)
  then show "event_id w topic qos t @ SUBSCRIPTION_SUCCESS_EVENT \<noteq> c @ CONNECTED_EVENT"
    "event_id w topic qos t @ SUBSCRIPTION_SUCCESS_EVENT \<noteq> c @ DISCONNECTED_EVENT"
    "event_id w topic qos t @ SUBSCRIPTION_FAILED_EVENT \<noteq> c @ CONNECTED_EVENT"
    "event_id w topic qos t @ SUBSCRIPTION_FAILED_EVENT \<noteq> c @ DISCONNECTED_EVENT"
    by auto
qed

lemma subscribe_unfold:
  "subscribe topic qos e s f w =
     ((next_listener w, Suc (next_listener w), Suc (Suc (next_listener w))),
      w\<lparr>tag := Suc (tag w),
        trace := trace w @ [SubscribeMqtt (event_id w topic (default_qos qos) (Suc (tag w))) (clientId w)
                              topic (default_qos qos)],
        listeners := listeners w @
          registrations (event_id w topic (default_qos qos) (Suc (tag w)))
            (next_listener w, Suc (next_listener w), Suc (Suc (next_listener w))) e s f,
        next_listener := Suc (Suc (Suc (next_listener w)))\<rparr>)"
  by (simp add: subscribe_def getMqttSubscribeEventId_def Let_def emit_effect_def addListener_def
      event_id_def registrations_def default_qos_def getIdPrefix_def)

lemma getMqttSubscribeEventId_event_id:
  "fst (getMqttSubscribeEventId topic qos w) = event_id w topic qos (Suc (tag w))"
  by (simp add: getMqttSubscribeEventId_def Let_def event_id_def getIdPrefix_def)

lemma subscription_remove_filter:
  "subscription_remove (a, b, c) w =
     w\<lparr>listeners :=
         filter (\<lambda>r. fst (snd r) \<noteq> a \<and> fst (snd r) \<noteq> b \<and> fst (snd r) \<noteq> c) (listeners w)\<rparr>"
proof -
  have "(\<lambda>(k, i, l). i \<noteq> c \<and> i \<noteq> b \<and> i \<noteq> a)
        = (\<lambda>r. fst (snd r) \<noteq> a \<and> fst (snd r) \<noteq> b \<and> fst (snd r) \<noteq> c)"
    by auto
  then show ?thesis
    by (simp add: subscription_remove_def token_remove_def split_def)
qed

lemma filter_fresh_tokens:
  assumes "\<And>r. r \<in> set rs \<Longrightarrow> fst (snd r) < a" and "a \<le> b"
  shows "filter (\<lambda>r. fst (snd r) \<noteq> b \<and> fst (snd r) \<noteq> Suc b \<and> fst (snd r) \<noteq> Suc (Suc b)) rs = rs"
proof -
  have "\<forall>r \<in> set rs. fst (snd r) \<noteq> b \<and> fst (snd r) \<noteq> Suc b \<and> fst (snd r) \<noteq> Suc (Suc b)"
    using assms by fastforce
  then show ?thesis by (simp only: filter_True)
qed

lemma remove_unfold:
  "remove w =
     w\<lparr>trace := trace w @ [RemoveMqtt (clientId w)],
       listeners := filter (\<lambda>r. fst r \<noteq> clientId w @ DISCONNECTED_EVENT
                                \<and> fst r \<noteq> clientId w @ CONNECTED_EVENT) (listeners w)\<rparr>"
  by (simp add: remove_def removeAllListeners_def emit_effect_def split_def)

lemma session_c1_run: "session_c1 = run [] (constructor ''c1'' ''broker'' 1883 None)"
  by (simp add: session_c1_def run_def)

section \<open>The claims\<close>

subsection \<open>C1: auto-reconnect\<close>

lemma auto_head_same: "same_bus v w \<Longrightarrow> auto_head cid v = auto_head cid w"
  by (simp add: same_bus_def auto_head_def)

lemma auto_head_append:
  assumes "auto_head cid v" and "listeners u = listeners v @ rs"
    and "\<forall>r \<in> set rs. callback_of (snd (snd r)) \<noteq> AutoReconnectHandler"
  shows "auto_head cid u"
proof -
  obtain xs where xs:
    "filter (\<lambda>r. fst r = cid @ DISCONNECTED_EVENT) (listeners v)
       = (cid @ DISCONNECTED_EVENT, 1, Intercepted AutoReconnectHandler) # xs"
    "\<forall>r \<in> set xs. callback_of (snd (snd r)) \<noteq> AutoReconnectHandler"
    using assms(1) by (auto simp: auto_head_def)
  have "filter (\<lambda>r. fst r = cid @ DISCONNECTED_EVENT) (listeners u)
          = (cid @ DISCONNECTED_EVENT, 1, Intercepted AutoReconnectHandler)
            # (xs @ filter (\<lambda>r. fst r = cid @ DISCONNECTED_EVENT) rs)"
    by (simp add: assms(2) xs(1))
  moreover have "\<forall>r \<in> set (xs @ filter (\<lambda>r. fst r = cid @ DISCONNECTED_EVENT) rs).
                   callback_of (snd (snd r)) \<noteq> AutoReconnectHandler"
    using xs(2) assms(3) by auto
  ultimately show ?thesis unfolding auto_head_def by blast
qed

lemma auto_head_add:
  assumes "auto_head cid v" and "callback_of l \<noteq> AutoReconnectHandler"
  shows "auto_head cid (snd (addListener k l v))"
  using assms(1)
  by (rule auto_head_append [where rs = "[(k, next_listener v, l)]"])
     (simp_all add: addListener_def assms(2))

lemma auto_head_token:
  assumes "auto_head cid v" and "t \<noteq> 1"
  shows "auto_head cid (token_remove t v)"
proof -
  obtain xs where xs:
    "filter (\<lambda>r. fst r = cid @ DISCONNECTED_EVENT) (listeners v)
       = (cid @ DISCONNECTED_EVENT, 1, Intercepted AutoReconnectHandler) # xs"
    "\<forall>r \<in> set xs. callback_of (snd (snd r)) \<noteq> AutoReconnectHandler"
    using assms(1) by (auto simp: auto_head_def)
  have "filter (\<lambda>r. fst r = cid @ DISCONNECTED_EVENT) (filter (\<lambda>(k, i, l). i \<noteq> t) (listeners v))
          = filter (\<lambda>(k, i, l). i \<noteq> t) (filter (\<lambda>r. fst r = cid @ DISCONNECTED_EVENT) (listeners v))"
    by (simp add: conj_commute)
  then have "filter (\<lambda>r. fst r = cid @ DISCONNECTED_EVENT) (listeners (token_remove t v))
          = (cid @ DISCONNECTED_EVENT, 1, Intercepted AutoReconnectHandler)
            # filter (\<lambda>(k, i, l). i \<noteq> t) xs"
    using assms(2) by (simp add: token_remove_def xs(1))
  moreover have "\<forall>r \<in> set (filter (\<lambda>(k, i, l). i \<noteq> t) xs).
                   callback_of (snd (snd r)) \<noteq> AutoReconnectHandler"
    using xs(2) by auto
  ultimately show ?thesis unfolding auto_head_def by blast
qed

lemma auto_head_invoke:
  assumes "auto_head cid w" and "calm_method m"
  shows "auto_head cid (invoke m w)"
proof (cases m)
  case (CallConnect opts)
  then show ?thesis using assms(1) by (simp add: auto_head_same [OF same_bus_connect])
next
  case CallDisconnect
  have "same_bus (disconnect w) w" by (simp add: same_bus_def disconnect_def emit_effect_def)
  then show ?thesis using assms(1) CallDisconnect by (simp add: auto_head_same)
next
  case CallRemove
  then show ?thesis using assms(2) by simp
next
  case (CallSubscribe tp q e s f)
  have "auto_head cid (snd (subscribe tp q e s f w))"
    using assms(1)
    by (rule auto_head_append [where rs = "registrations (event_id w tp (default_qos q) (Suc (tag w)))
               (next_listener w, Suc (next_listener w), Suc (Suc (next_listener w))) e s f"])
       (simp_all add: subscribe_unfold registrations_def split: option.splits)
  then show ?thesis using CallSubscribe by simp
next
  case (CallSubscriptionRemove h)
  obtain a b c where h: "h = (a, b, c)" by (cases h)
  have "a \<noteq> 1" "b \<noteq> 1" "c \<noteq> 1" using assms(2) CallSubscriptionRemove h by simp_all
  then have "auto_head cid (token_remove c (token_remove b (token_remove a w)))"
    using assms(1) by (simp add: auto_head_token)
  then show ?thesis using CallSubscriptionRemove h by (simp add: subscription_remove_def)
next
  case (CallSetOnReconnectIntercepter f)
  have "same_bus (setOnReconnectIntercepter f w) w"
    by (simp add: same_bus_def setOnReconnectIntercepter_def)
  then show ?thesis using assms(1) CallSetOnReconnectIntercepter by (simp add: auto_head_same)
next
  case (CallSetOnConnectCallback f)
  then show ?thesis
    using auto_head_add [OF assms(1), of "Direct (AppCallback f)"]
    by (simp add: setOnConnectCallback_def)
next
  case (CallSetOnConnectFailureCallback f)
  then show ?thesis
    using auto_head_add [OF assms(1), of "Intercepted (ConnectFailureWrapper f)"]
    by (simp add: setOnConnectFailureCallback_def onDisconnectInterceptor_def)
next
  case (CallSetOnDisconnectCallback f)
  then show ?thesis
    using auto_head_add [OF assms(1), of "Intercepted (DisconnectWrapper f)"]
    by (simp add: setOnDisconnectCallback_def onDisconnectInterceptor_def)
next
  case (CallTokenRemove t)
  then show ?thesis using assms by (simp add: auto_head_token)
qed

lemma auto_head_callback:
  assumes "\<And>c m. m \<in> set (fst (beh c)) \<Longrightarrow> calm_method m" and "auto_head cid w"
  shows "auto_head cid (snd (run_callback cb ack beh w))"
proof -
  have app: "auto_head cid (snd (call_app beh c w))" for c
  proof (rule call_app_preserves [where P = "auto_head cid"])
    show "auto_head cid (invoke m v)" if "m \<in> set (fst (beh c))" "auto_head cid v" for m v
      using that(2) assms(1) [OF that(1)] by (rule auto_head_invoke)
    show "auto_head cid (emit_effect (App c) w)"
      using assms(2) by (simp add: auto_head_def emit_effect_def)
  qed
  have ask: "auto_head cid (ask_intercepter k w)" for k
    using assms(2) by (simp add: auto_head_same [OF same_bus_ask])
  have upd: "auto_head cid (w\<lparr>currentRetryCount := 0, connectionStatus := CONNECTED,
                              mqtt5DisconnectReasonCode := None\<rparr>)"
    "auto_head cid (w\<lparr>mqtt5DisconnectReasonCode := Some r\<rparr>)" for r
    using assms(2) by (simp_all add: auto_head_def)
  show ?thesis
    by (cases cb) (simp_all add: app ask upd assms(2))
qed

lemma scripted_calm:
  assumes "list_all (\<lambda>(c, ms, t). list_all calm_method ms) tbl" and "m \<in> set (fst (scripted tbl c))"
  shows "calm_method m"
proof (cases "map_of tbl c")
  case None
  then show ?thesis using assms(2) by (simp add: scripted_def)
next
  case (Some b)
  then have "(c, b) \<in> set tbl" by (rule map_of_SomeD)
  then have "list_all calm_method (fst b)"
    using assms(1) by (auto simp: list_all_iff)
  then show ?thesis using assms(2) Some by (simp add: scripted_def list_all_iff)
qed

lemma auto_head_step:
  assumes "auto_head cid w" and "calm a"
  shows "auto_head cid (step a w)"
proof (cases a)
  case (Connect opts)
  then show ?thesis using auto_head_invoke [OF assms(1), of "CallConnect opts"] by simp
next
  case Disconnect
  then show ?thesis using auto_head_invoke [OF assms(1), of CallDisconnect] by simp
next
  case Remove
  then show ?thesis using assms(2) by simp
next
  case (Subscribe tp q e s f)
  then show ?thesis using auto_head_invoke [OF assms(1), of "CallSubscribe tp q e s f"] by simp
next
  case (SubscriptionRemove h)
  obtain x y z where h: "h = (x, y, z)" by (cases h)
  show ?thesis
    using auto_head_invoke [OF assms(1), of "CallSubscriptionRemove h"] assms(2)
    by (simp add: SubscriptionRemove h)
next
  case (SetOnReconnectIntercepter f)
  then show ?thesis using auto_head_invoke [OF assms(1), of "CallSetOnReconnectIntercepter f"] by simp
next
  case (SetOnConnectCallback f)
  then show ?thesis using auto_head_invoke [OF assms(1), of "CallSetOnConnectCallback f"] by simp
next
  case (SetOnConnectFailureCallback f)
  then show ?thesis using auto_head_invoke [OF assms(1), of "CallSetOnConnectFailureCallback f"] by simp
next
  case (SetOnDisconnectCallback f)
  then show ?thesis using auto_head_invoke [OF assms(1), of "CallSetOnDisconnectCallback f"] by simp
next
  case (TokenRemove t)
  then show ?thesis using auto_head_invoke [OF assms(1), of "CallTokenRemove t"] assms(2) by simp
next
  case (Emit k ack thr)
  have "auto_head cid (emit k ack thr w)"
  proof (rule emit_preserves [where P = "auto_head cid"])
    show "auto_head cid (snd (run_callback cb b (quiet thr) v))" if "auto_head cid v" for cb b v
      by (rule auto_head_callback [OF _ that]) (simp add: quiet_def)
  qed (rule assms(1))
  then show ?thesis using Emit by simp
next
  case (Deliver k ack tbl)
  have tbl: "list_all (\<lambda>(c, ms, t). list_all calm_method ms) tbl"
    using assms(2) Deliver by simp
  have "auto_head cid (deliver k ack (scripted tbl) w)"
  proof (rule deliver_preserves [where P = "auto_head cid"])
    show "auto_head cid (snd (run_callback cb b (scripted tbl) v))" if "auto_head cid v" for cb b v
      by (rule auto_head_callback [OF _ that]) (rule scripted_calm [OF tbl])
  qed (rule assms(1))
  then show ?thesis using Deliver by simp
next
  case (FireTimer h s)
  then show ?thesis using assms(1) by (simp add: auto_head_same [OF same_bus_fire_timer])
next
  case (Settle n out)
  then show ?thesis using assms(1) by (simp add: auto_head_same [OF same_bus_settle])
qed

lemma auto_head_constructor:
  assumes "h \<noteq> []" and "prop_of opts autoReconnect = Some True"
  shows "auto_head cid (constructor cid h p opts)"
  using assms
  by (simp add: auto_head_def constructor_def fresh_def Let_def emit_effect_def
      setOnConnectCallback_def onDisconnectInterceptor_def addListener_def
      CONNECTED_EVENT_def DISCONNECTED_EVENT_def)

lemma auto_head_run:
  assumes "h \<noteq> []" and "prop_of opts autoReconnect = Some True" and "list_all calm as"
  shows "auto_head cid (run as (constructor cid h p opts))"
proof (rule run_preserves_on [where P = "auto_head cid"])
  show "auto_head cid (step a v)" if "a \<in> set as" "auto_head cid v" for a v
    using that(2) by (rule auto_head_step) (use that(1) assms(3) in \<open>simp add: list_all_iff\<close>)
qed (rule auto_head_constructor [OF assms(1,2)])

lemma auto_head_handlers:
  assumes "auto_head cid w"
  shows "\<exists>ls. handlers_for (cid @ DISCONNECTED_EVENT) w = Intercepted AutoReconnectHandler # ls
            \<and> (\<forall>l \<in> set ls. callback_of l \<noteq> AutoReconnectHandler)"
proof -
  obtain xs where xs:
    "filter (\<lambda>r. fst r = cid @ DISCONNECTED_EVENT) (listeners w)
       = (cid @ DISCONNECTED_EVENT, 1, Intercepted AutoReconnectHandler) # xs"
    "\<forall>r \<in> set xs. callback_of (snd (snd r)) \<noteq> AutoReconnectHandler"
    using assms by (auto simp: auto_head_def)
  have same: "(\<lambda>(k, i, l). k = cid @ DISCONNECTED_EVENT) = (\<lambda>r. fst r = cid @ DISCONNECTED_EVENT)"
    by auto
  have "handlers_for (cid @ DISCONNECTED_EVENT) w
          = Intercepted AutoReconnectHandler # map (\<lambda>(k, i, l). l) xs"
    by (simp add: handlers_for_def same xs(1))
  moreover have "\<forall>l \<in> set (map (\<lambda>(k, i, l). l) xs). callback_of l \<noteq> AutoReconnectHandler"
    using xs(2) by auto
  ultimately show ?thesis by blast
qed

lemma same_requests_api: "api_closed (\<lambda>v. same_requests v x)"
proof (rule api_closedI)
  show "same_requests (connect opts v) x" if "same_requests v x" for v opts
    using that
    by (simp add: same_requests_def connect_def connection_unfold resetOptions_def
        resetConnectVariables_def intercepter_calls_append split: option.splits)
  show "same_requests (remove v) x" if "same_requests v x" for v
    using that by (simp add: same_requests_def remove_unfold intercepter_calls_append)
  show "same_requests (emit_effect (SubscribeMqtt (fst (getMqttSubscribeEventId t q v)) (clientId v) t q)
          (snd (getMqttSubscribeEventId t q v))) x" if "same_requests v x" for v t q
    using that
    by (simp add: same_requests_def getMqttSubscribeEventId_def Let_def emit_effect_def
        intercepter_calls_append)
  show "same_requests (disconnect v) x" if "same_requests v x" for v
    using that by (simp add: same_requests_def disconnect_def emit_effect_def intercepter_calls_append)
  show "same_requests (snd (addListener k l v)) x" if "same_requests v x" for v k l
    using that by (simp add: same_requests_def addListener_def)
  show "same_requests (token_remove t v) x" if "same_requests v x" for v t
    using that by (simp add: same_requests_def token_remove_def)
  show "same_requests (setOnReconnectIntercepter f v) x" if "same_requests v x" for v f
    using that by (simp add: same_requests_def setOnReconnectIntercepter_def)
qed

lemma same_requests_call_app:
  assumes "same_requests v x" and "intercepter_calls [App c] = []"
  shows "same_requests (snd (call_app beh c v)) x"
proof (rule call_app_preserves [where P = "\<lambda>v. same_requests v x"])
  show "same_requests (invoke m u) x" if "same_requests u x" for m u
    using same_requests_api that by (rule invoke_preserves)
  show "same_requests (emit_effect (App c) v) x"
    using assms by (simp add: same_requests_def emit_effect_def intercepter_calls_append)
qed

lemma same_requests_callback:
  assumes "cb \<noteq> AutoReconnectHandler" and "same_requests v x"
  shows "same_requests (snd (run_callback cb a beh v)) x"
  using assms
  by (cases cb) (simp_all add: same_requests_call_app, simp_all add: same_requests_def)

lemma same_requests_listener:
  assumes "callback_of l \<noteq> AutoReconnectHandler" and "same_requests v x"
  shows "same_requests (run_listener l a beh v) x"
  using assms
  by (cases l) (simp_all add: run_listener_Intercepted same_requests_callback del: run_listener.simps(2))

lemma same_options_emit: "same_options (emit k ack thr w) w"
proof (rule emit_preserves [where P = "\<lambda>v. same_options v w"])
  show "same_options (snd (run_callback cb a (quiet thr) v)) w" if "same_options v w" for cb a v
    using that
    by (cases cb)
       (simp_all add: same_options_def call_app_quiet ask_intercepter_def emit_effect_def
          connects_append split: option.splits)
qed (simp add: same_options_def)

lemma settle_last:
  assumes "inflight d = xs @ [(AwaitIntercepter, ReconnectK ack)]"
  shows "settle (length xs) (Resolved new) d
           = (connect new (d\<lparr>inflight := xs\<rparr>))\<lparr>mqtt5DisconnectReasonCode := Some (reasonCode ack)\<rparr>"
  by (simp add: settle_def assms)

text \<open>
  Claim C1, as stated, fails: the session \<open>c1\<close> has \<open>autoReconnect\<close> set and the
  interceptor \<open>7\<close>, and is connected; a disconnect event with the reason code \<open>135\<close>
  arrives; the interceptor is called with \<^verbatim>\<open>undefined\<close>, not with \<open>135\<close>.
\<close>

theorem autoReconnect_passes_no_reason:
  "connectionStatus reconnecting = CONNECTED
   \<and> \<not> (intercepter_calls (trace (emit ''c1DISCONNECTED'' dropped never_throws reconnecting))
          = [(7, Some (REASON 135))])
   \<and> intercepter_calls (trace (emit ''c1DISCONNECTED'' dropped never_throws reconnecting))
       = [(7, None)]"
  by code_simp

text \<open>
  The handler that asks the interceptor is registered by the constructor, and only when
  \<open>autoReconnect\<close> is set then; \<^verbatim>\<open>remove()\<close> takes it out of the bus. A session
  that enables \<open>autoReconnect\<close> later, or that was removed, does not ask the
  interceptor when a disconnect event arrives.
\<close>

lemma autoReconnect_without_the_listener:
  "connectionStatus enabled_late = CONNECTED
   \<and> prop_of (options enabled_late) autoReconnect = Some True
   \<and> intercepter_calls (trace (emit ''c1DISCONNECTED'' dropped never_throws enabled_late)) = []
   \<and> connectionStatus removed_session = CONNECTED
   \<and> prop_of (options removed_session) autoReconnect = Some True
   \<and> intercepter_calls (trace (emit ''c1DISCONNECTED'' dropped never_throws removed_session)) = []"
  by code_simp

text \<open>
  Claim C1, as amended. Take a session that was constructed with a host and with
  \<open>autoReconnect\<close> set, whose history \<open>as\<close> has left the constructor's listeners in
  the bus (no \<^verbatim>\<open>remove()\<close>), that is connected and has the interceptor \<open>f\<close>. When
  a disconnect event \<open>ack\<close> is delivered on its disconnect channel, whatever the
  application callbacks on that channel do (\<open>beh\<close>), the interceptor is called exactly
  once, with the stored reason code, which is undefined in a connected session, and not
  with the event's code; the handler then waits for the answer. When the answer \<open>new\<close>
  is there, the handler has called \<^verbatim>\<open>connect(new)\<close>: the status is connecting, the
  retry count \<open>0\<close>, every property that \<open>new\<close> specifies has replaced the session's
  and every other property of the options has persisted, the native connect was called
  with the merged options (whatever \<open>retryCount\<close> and the retry count were), and the
  event's reason code is stored at the end; the same holds when the handler goes on
  later, in whatever state \<open>v\<close> the session then is. A delivery to callbacks that call
  nothing leaves the options as they were and makes no connect call itself.
\<close>

theorem autoReconnect_asks_with_stored_reason:
  assumes "w = run as (constructor cid h p opts)"
    and "h \<noteq> []" and "prop_of opts autoReconnect = Some True" and "list_all calm as"
    and "connectionStatus w = CONNECTED" and "onReconnectIntercepter w = Some f"
    and "d = deliver (cid @ DISCONNECTED_EVENT) ack beh w"
    and "s = settle (length (inflight w)) (Resolved new) d"
  shows "mqtt5DisconnectReasonCode w = None
         \<and> intercepter_calls (trace d) = intercepter_calls (trace w) @ [(f, None)]
         \<and> inflight d = inflight w @ [(AwaitIntercepter, ReconnectK ack)]
         \<and> connectionStatus s = CONNECTING
         \<and> currentRetryCount s = 0
         \<and> shallow_merge (options d) new (options s)
         \<and> connects (trace s) = connects (trace d) @ [connect_options (options s)]
         \<and> mqtt5DisconnectReasonCode s = Some (reasonCode ack)
         \<and> connectionStatus (resume (ReconnectK ack) new v) = CONNECTING
         \<and> currentRetryCount (resume (ReconnectK ack) new v) = 0
         \<and> shallow_merge (options v) new (options (resume (ReconnectK ack) new v))
         \<and> connects (trace (resume (ReconnectK ack) new v))
             = connects (trace v) @ [connect_options (options (resume (ReconnectK ack) new v))]
         \<and> mqtt5DisconnectReasonCode (resume (ReconnectK ack) new v) = Some (reasonCode ack)
         \<and> options (emit (cid @ DISCONNECTED_EVENT) ack throws w) = options w
         \<and> connects (trace (emit (cid @ DISCONNECTED_EVENT) ack throws w)) = connects (trace w)"
proof -
  have "reason_inv w" unfolding assms(1) by (rule reason_run)
  then have none: "mqtt5DisconnectReasonCode w = None"
    using assms(5) by (simp add: reason_inv_def)
  have "auto_head cid w" unfolding assms(1) using assms(2,3,4) by (rule auto_head_run)
  then obtain ls where ls:
    "handlers_for (cid @ DISCONNECTED_EVENT) w = Intercepted AutoReconnectHandler # ls"
    "\<forall>l \<in> set ls. callback_of l \<noteq> AutoReconnectHandler"
    using auto_head_handlers by blast
  define w1 where "w1 = ask_intercepter (ReconnectK ack) w"
  have first: "run_listener (Intercepted AutoReconnectHandler) ack beh w = w1"
    using assms(5) by (simp add: w1_def)
  have asked: "intercepter_calls (trace w1) = intercepter_calls (trace w) @ [(f, None)]"
    "inflight w1 = inflight w @ [(AwaitIntercepter, ReconnectK ack)]"
    using assms(6) none
    by (simp_all add: w1_def ask_intercepter_def emit_effect_def intercepter_calls_append)
  have d: "d = foldl (\<lambda>v l. run_listener l ack beh v) w1 ls"
    unfolding assms(7) deliver_def ls(1) using first by (simp del: run_listener.simps)
  have "same_requests d w1"
    unfolding d
  proof (rule foldl_preserves_on [where P = "\<lambda>v. same_requests v w1"])
    show "same_requests (run_listener l ack beh v) w1" if "l \<in> set ls" "same_requests v w1" for l v
      using ls(2) that by (simp add: same_requests_listener)
  qed (simp add: same_requests_def)
  then have delivered: "intercepter_calls (trace d) = intercepter_calls (trace w) @ [(f, None)]"
    "inflight d = inflight w @ [(AwaitIntercepter, ReconnectK ack)]"
    using asked by (simp_all add: same_requests_def)
  define u where "u = d\<lparr>inflight := inflight w\<rparr>"
  have s: "s = (connect new u)\<lparr>mqtt5DisconnectReasonCode := Some (reasonCode ack)\<rparr>"
    unfolding assms(8) u_def by (rule settle_last) (rule delivered(2))
  have u: "options u = options d" "trace u = trace d" by (simp_all add: u_def)
  have resumed: "connectionStatus s = CONNECTING" "currentRetryCount s = 0"
    "shallow_merge (options d) new (options s)"
    "connects (trace s) = connects (trace d) @ [connect_options (options s)]"
    "mqtt5DisconnectReasonCode s = Some (reasonCode ack)"
    using connect_fields(1,2,4) [of new u] connect_merges [of u new] u by (simp_all add: s)
  have quiet: "options (emit (cid @ DISCONNECTED_EVENT) ack throws w) = options w"
    "connects (trace (emit (cid @ DISCONNECTED_EVENT) ack throws w)) = connects (trace w)"
    using same_options_emit [of "cid @ DISCONNECTED_EVENT" ack throws w]
    by (simp_all add: same_options_def)
  have later: "connectionStatus (resume (ReconnectK ack) new v) = CONNECTING"
    "currentRetryCount (resume (ReconnectK ack) new v) = 0"
    "shallow_merge (options v) new (options (resume (ReconnectK ack) new v))"
    "connects (trace (resume (ReconnectK ack) new v))
       = connects (trace v) @ [connect_options (options (resume (ReconnectK ack) new v))]"
    "mqtt5DisconnectReasonCode (resume (ReconnectK ack) new v) = Some (reasonCode ack)"
    using connect_fields(1,2,4) [of new v] connect_merges [of v new] by simp_all
  show ?thesis
    using none delivered resumed later quiet by simp
qed

lemma reconnecting_eval:
  "connectionStatus reconnecting = CONNECTED"
  "onReconnectIntercepter reconnecting = Some 7"
  "intercepter_calls (trace reconnecting) = []"
  "inflight reconnecting = []"
  "options (emit ''c1DISCONNECTED'' dropped never_throws reconnecting)
     = Some (no_options\<lparr>autoReconnect := Value True\<rparr>)"
  "options (settle 0 (Resolved (Some refreshed))
               (emit ''c1DISCONNECTED'' dropped never_throws reconnecting))
     = Some (no_options\<lparr>username := Value ''u'', autoReconnect := Value True\<rparr>)"
  "connects (trace (settle 0 (Resolved (Some refreshed))
               (emit ''c1DISCONNECTED'' dropped never_throws reconnecting)))
     = [\<lparr>arg_keepAlive = 60, arg_username = [], arg_password = [], arg_cleanSession = True\<rparr>,
        \<lparr>arg_keepAlive = 60, arg_username = ''u'', arg_password = [], arg_cleanSession = True\<rparr>]"
  "reasonCode dropped = REASON 135"
  by code_simp+

text \<open>
  The same session: the interceptor is asked with \<^verbatim>\<open>undefined\<close>; when it answers
  with a new user name, \<open>autoReconnect\<close> persists in the options, the native connect
  is called with the new user name, and the code \<open>135\<close> is stored.
\<close>

theorem autoReconnect_asks_with_stored_reason_witness:
  "reconnecting =
     run [SetOnReconnectIntercepter 7, Connect None,
          Emit ''c1CONNECTED'' connected_event never_throws]
       (constructor ''c1'' ''broker'' 1883 (Some (no_options\<lparr>autoReconnect := Value True\<rparr>)))
   \<and> connectionStatus reconnecting = CONNECTED
   \<and> mqtt5DisconnectReasonCode reconnecting = None
   \<and> intercepter_calls (trace (emit ''c1DISCONNECTED'' dropped never_throws reconnecting))
       = [(7, None)]
   \<and> inflight (emit ''c1DISCONNECTED'' dropped never_throws reconnecting)
       = [(AwaitIntercepter, ReconnectK dropped)]
   \<and> shallow_merge (Some (no_options\<lparr>autoReconnect := Value True\<rparr>)) (Some refreshed)
       (Some (no_options\<lparr>username := Value ''u'', autoReconnect := Value True\<rparr>))
   \<and> options (settle 0 (Resolved (Some refreshed))
               (emit ''c1DISCONNECTED'' dropped never_throws reconnecting))
       = Some (no_options\<lparr>username := Value ''u'', autoReconnect := Value True\<rparr>)
   \<and> connects (trace (settle 0 (Resolved (Some refreshed))
               (emit ''c1DISCONNECTED'' dropped never_throws reconnecting)))
       = [\<lparr>arg_keepAlive = 60, arg_username = [], arg_password = [], arg_cleanSession = True\<rparr>,
          \<lparr>arg_keepAlive = 60, arg_username = ''u'', arg_password = [], arg_cleanSession = True\<rparr>]
   \<and> mqtt5DisconnectReasonCode (settle 0 (Resolved (Some refreshed))
               (emit ''c1DISCONNECTED'' dropped never_throws reconnecting)) = Some (REASON 135)"
proof -
  have 1: "reconnecting =
     run [SetOnReconnectIntercepter 7, Connect None,
          Emit ''c1CONNECTED'' connected_event never_throws]
       (constructor ''c1'' ''broker'' 1883 (Some (no_options\<lparr>autoReconnect := Value True\<rparr>)))"
    by (simp add: reconnecting_def)
  have 2: "''broker'' \<noteq> []" by simp
  have 3: "prop_of (Some (no_options\<lparr>autoReconnect := Value True\<rparr>)) autoReconnect = Some True"
    by (simp add: prop_of_def)
  have 4: "list_all calm [SetOnReconnectIntercepter 7, Connect None,
                          Emit ''c1CONNECTED'' connected_event never_throws]"
    by simp
  have 7: "emit ''c1DISCONNECTED'' dropped never_throws reconnecting
             = deliver (''c1'' @ DISCONNECTED_EVENT) dropped (quiet never_throws) reconnecting"
    by (simp add: emit_def DISCONNECTED_EVENT_def)
  have 8: "settle 0 (Resolved (Some refreshed))
             (emit ''c1DISCONNECTED'' dropped never_throws reconnecting)
           = settle (length (inflight reconnecting)) (Resolved (Some refreshed))
               (emit ''c1DISCONNECTED'' dropped never_throws reconnecting)"
    by (simp add: reconnecting_eval)
  show ?thesis
    by (rule conjI [OF 1])
       (use autoReconnect_asks_with_stored_reason [OF 1 2 3 4 reconnecting_eval(1,2) 7 8]
          reconnecting_eval in simp)
qed

subsection \<open>C2: remove\<close>

text \<open>
  Claim C2 does not hold of the code: the session \<open>c1\<close> subscribes twice to the
  topic \<open>t\<close> and calls \<^verbatim>\<open>remove()\<close>; the six registrations of the two
  subscriptions are still in the bus, under the prefix \<open>mqtt_client#c1\<close>.
  \<^verbatim>\<open>remove()\<close> (lines 397-406) clears the connected-event and the disconnected-event
  channel only, while its comment says that it removes the client and its event
  listeners.
\<close>

theorem remove_leaves_subscriptions:
  "\<not> (listeners_under (getIdPrefix two_subscriptions) two_subscriptions = [])
   \<and> map fst (listeners_under (getIdPrefix two_subscriptions) two_subscriptions)
       = [''mqtt_client#c1#subscribe_mqtt#t#1#1'',
          ''mqtt_client#c1#subscribe_mqtt#t#1#1SUCCESS'',
          ''mqtt_client#c1#subscribe_mqtt#t#1#1FAILURE'',
          ''mqtt_client#c1#subscribe_mqtt#t#1#2'',
          ''mqtt_client#c1#subscribe_mqtt#t#1#2SUCCESS'',
          ''mqtt_client#c1#subscribe_mqtt#t#1#2FAILURE'']
   \<and> handlers_for ''c1CONNECTED'' two_subscriptions = []
   \<and> handlers_for ''c1DISCONNECTED'' two_subscriptions = []"
  by code_simp

subsection \<open>C3: the retry loop\<close>







subsection \<open>C4: the connected event\<close>














subsection \<open>C5: classifying a disconnect event\<close>

lemma variant_same: "same_session v w \<Longrightarrow> variant v cb r = variant w cb r"
  by (cases cb) (simp_all add: same_session_def failure_variant_def disconnect_variant_def)

lemma same_session_trans: "same_session u v \<Longrightarrow> same_session v w \<Longrightarrow> same_session u w"
  by (simp add: same_session_def)

lemma surfaced_ask:
  "surfaced (trace (ask_intercepter k w)) = surfaced (trace w)"
  "same_session (ask_intercepter k w) w"
  by (simp_all add: ask_intercepter_def emit_effect_def surfaced_append same_session_def
      split: option.splits)

lemma keeps_session_invoke:
  assumes "keeps_session m"
  shows "same_session (invoke m v) v" and "surfaced (trace (invoke m v)) = surfaced (trace v)"
proof -
  show "same_session (invoke m v) v"
    using assms
    by (cases m)
       (simp_all add: same_session_def remove_unfold subscribe_unfold subscription_remove_def
          token_remove_def split_def setOnReconnectIntercepter_def setOnConnectCallback_def
          setOnConnectFailureCallback_def setOnDisconnectCallback_def onDisconnectInterceptor_def
          addListener_def)
  show "surfaced (trace (invoke m v)) = surfaced (trace v)"
    using assms
    by (cases m)
       (simp_all add: remove_unfold subscribe_unfold subscription_remove_def
          token_remove_def split_def setOnReconnectIntercepter_def setOnConnectCallback_def
          setOnConnectFailureCallback_def setOnDisconnectCallback_def onDisconnectInterceptor_def
          addListener_def surfaced_append)
qed

lemma surfaced_call_app:
  assumes "list_all keeps_session (fst (beh c))"
  shows "surfaced (trace (snd (call_app beh c w))) = surfaced (trace w) @ surfaced [App c]"
    and "same_session (snd (call_app beh c w)) w"
proof -
  have "surfaced (trace (snd (call_app beh c w))) = surfaced (trace w) @ surfaced [App c]
        \<and> same_session (snd (call_app beh c w)) w"
  proof (rule call_app_preserves [where P = "\<lambda>v. surfaced (trace v) = surfaced (trace w) @ surfaced [App c]
                                                \<and> same_session v w"])
    show "surfaced (trace (invoke m v)) = surfaced (trace w) @ surfaced [App c]
           \<and> same_session (invoke m v) w"
      if "m \<in> set (fst (beh c))"
        "surfaced (trace v) = surfaced (trace w) @ surfaced [App c] \<and> same_session v w" for m v
    proof -
      have "keeps_session m" using assms that(1) by (simp add: list_all_iff)
      then show ?thesis
        using keeps_session_invoke [of m v] that(2) same_session_trans [of "invoke m v" v w]
        by simp
    qed
    show "surfaced (trace (emit_effect (App c) w)) = surfaced (trace w) @ surfaced [App c]
           \<and> same_session (emit_effect (App c) w) w"
      by (simp add: emit_effect_def surfaced_append same_session_def)
  qed
  then show "surfaced (trace (snd (call_app beh c w))) = surfaced (trace w) @ surfaced [App c]"
    and "same_session (snd (call_app beh c w)) w" by simp_all
qed

lemma surfaced_callback:
  assumes "cb \<noteq> ConnectedHandler" and "\<And>c. list_all keeps_session (fst (beh c))"
  shows "surfaced (trace (snd (run_callback cb ack beh w))) = surfaced (trace w) @ variant w cb (reasonCode ack)"
    and "same_session (snd (run_callback cb ack beh w)) w"
proof -
  show "surfaced (trace (snd (run_callback cb ack beh w))) = surfaced (trace w) @ variant w cb (reasonCode ack)"
    using assms(1)
    by (cases cb) (simp_all add: surfaced_ask surfaced_call_app [OF assms(2)]
      failure_variant_def disconnect_variant_def split: CONNECTION_STATE.splits)
  show "same_session (snd (run_callback cb ack beh w)) w"
    using assms(1)
    by (cases cb) (simp_all add: surfaced_ask surfaced_call_app [OF assms(2)],
                   simp_all add: same_session_def)
qed

lemma threw_callback:
  "fst (run_callback (ConnectFailureWrapper f) ack beh w)
     = list_ex (\<lambda>c. snd (beh c)) (variant w (ConnectFailureWrapper f) (reasonCode ack))"
  "fst (run_callback (DisconnectWrapper f) ack beh w)
     = list_ex (\<lambda>c. snd (beh c)) (variant w (DisconnectWrapper f) (reasonCode ack))"
  "fst (run_callback AutoReconnectHandler ack beh w) = False"
  "fst (run_callback NoOp ack beh w) = False"
  by (simp_all add: call_app_def failure_variant_def disconnect_variant_def
      split: CONNECTION_STATE.splits)

lemma surfaced_callback_from:
  assumes "cb \<noteq> ConnectedHandler" and "same_session v w"
    and "\<And>c. list_all keeps_session (fst (beh c))"
  shows "surfaced (trace (snd (run_callback cb ack beh v))) = surfaced (trace v) @ variant w cb (reasonCode ack)"
    and "same_session (snd (run_callback cb ack beh v)) w"
  using surfaced_callback [OF assms(1,3), where ack = ack and w = v] variant_same [OF assms(2)]
    same_session_trans [OF _ assms(2)]
  by simp_all

lemma surfaced_listener:
  assumes "callback_of l \<noteq> ConnectedHandler" and "same_session v w"
    and k: "\<And>c. list_all keeps_session (fst (beh c))"
  shows "surfaced (trace (run_listener l ack beh v))
           = surfaced (trace v) @ surfaced_to (\<lambda>c. snd (beh c)) w ack l
         \<and> same_session (run_listener l ack beh v) w"
proof (cases l)
  case (Direct cb)
  then show ?thesis using assms(1,2) surfaced_callback_from [where cb = cb and v = v and w = w and beh = beh and ack = ack, OF _ _ k] by simp
next
  case (Intercepted cb)
  define v1 where "v1 = snd (run_callback cb ack beh v)"
  have cb: "cb \<noteq> ConnectedHandler" using assms(1) Intercepted by simp
  have 1: "surfaced (trace v1) = surfaced (trace v) @ variant w cb (reasonCode ack)"
    "same_session v1 w"
    unfolding v1_def using cb assms(2) k by (rule surfaced_callback_from)+
  have 2: "surfaced (trace (snd (run_callback cb \<lparr>reasonCode = DEFAULT, body = []\<rparr> beh v1)))
             = surfaced (trace v1) @ variant w cb DEFAULT"
    "same_session (snd (run_callback cb \<lparr>reasonCode = DEFAULT, body = []\<rparr> beh v1)) w"
    using surfaced_callback_from [OF cb 1(2) k, where ack = "\<lparr>reasonCode = DEFAULT, body = []\<rparr>"] by simp_all
  have 3: "fst (run_callback cb ack beh v) \<Longrightarrow> variant w cb (reasonCode ack) = []
           \<Longrightarrow> variant w cb DEFAULT = []"
    by (cases cb) (simp_all add: failure_variant_def disconnect_variant_def split: if_splits)
  have vs: "variant v cb r = variant w cb r" for r
    by (rule variant_same [OF assms(2)])
  have 4: "fst (run_callback cb ack beh v) = list_ex (\<lambda>c. snd (beh c)) (variant w cb (reasonCode ack))"
    if "variant w cb (reasonCode ack) \<noteq> []"
  proof (cases cb)
    case (ConnectFailureWrapper f)
    show ?thesis
      unfolding ConnectFailureWrapper vs [unfolded ConnectFailureWrapper, symmetric]
      by (rule threw_callback(1))
  next
    case (DisconnectWrapper f)
    show ?thesis
      unfolding DisconnectWrapper vs [unfolded DisconnectWrapper, symmetric]
      by (rule threw_callback(2))
  qed (use that in simp_all)
  show ?thesis
  proof (cases "variant w cb (reasonCode ack) = []")
    case True
    then show ?thesis
      using Intercepted 1 2 3 
      by (simp add: run_listener_Intercepted v1_def [symmetric] del: run_listener.simps)
  next
    case False
    then show ?thesis
      using Intercepted 1 2 4
      by (simp add: run_listener_Intercepted v1_def [symmetric] del: run_listener.simps)
  qed
qed

lemma surfaced_foldl:
  assumes "\<forall>l \<in> set ls. callback_of l \<noteq> ConnectedHandler" and "same_session v w"
    and k: "\<And>c. list_all keeps_session (fst (beh c))"
  shows "surfaced (trace (foldl (\<lambda>u l. run_listener l ack beh u) v ls))
           = surfaced (trace v) @ concat (map (surfaced_to (\<lambda>c. snd (beh c)) w ack) ls)"
  using assms(1,2)
proof (induction ls arbitrary: v)
  case Nil
  then show ?case by simp
next
  case (Cons l ls)
  have "callback_of l \<noteq> ConnectedHandler" using Cons.prems(1) by simp
  from surfaced_listener [OF this Cons.prems(2) k, where ack = ack]
  have step: "surfaced (trace (run_listener l ack beh v))
                = surfaced (trace v) @ surfaced_to (\<lambda>c. snd (beh c)) w ack l"
    "same_session (run_listener l ack beh v) w" by simp_all
  have "surfaced (trace (foldl (\<lambda>u l. run_listener l ack beh u) (run_listener l ack beh v) ls))
          = surfaced (trace (run_listener l ack beh v))
            @ concat (map (surfaced_to (\<lambda>c. snd (beh c)) w ack) ls)"
    using Cons.prems(1) step(2) by (intro Cons.IH) simp_all
  then show ?case by (simp add: step(1) del: run_listener.simps)
qed

lemma handlers_for_add:
  "handlers_for k (snd (addListener k' l w)) = handlers_for k w @ (if k' = k then [l] else [])"
  by (simp add: handlers_for_def addListener_def)

text \<open>
  Claim C5, as stated, fails: the session \<open>c1\<close> has the connect-failure callback \<open>9\<close>
  and the disconnect callback \<open>8\<close> and is connecting; a disconnect event arrives, the
  callback \<open>9\<close> is told of it and calls \<^verbatim>\<open>disconnect()\<close>; the wrapper of the
  callback \<open>8\<close> runs next, reads the status disconnected, and surfaces the same event a
  second time, as \<open>forceDisconnected\<close>.
\<close>

theorem disconnect_event_surfaced_twice:
  "connectionStatus watching = CONNECTING
   \<and> \<not> (surfaced (trace (deliver ''c1DISCONNECTED'' dropped hangs_up watching))
          = [ConnectFailure 9 (REASON 135)])
   \<and> surfaced (trace (deliver ''c1DISCONNECTED'' dropped hangs_up watching))
       = [ConnectFailure 9 (REASON 135),
          OnDisconnect 8 (REASON 135) (Some (retry3 1000)) forceDisconnected 0]"
  by code_simp

text \<open>
  Claim C5, as amended. \<^verbatim>\<open>setOnConnectFailureCallback\<close> and
  \<^verbatim>\<open>setOnDisconnectCallback\<close> append the wrapper of their callback to the listeners
  of the client's disconnect channel. In any session, a disconnect event delivered on
  that channel, to callbacks that may call any method of the client but \<^verbatim>\<open>connect()\<close>
  and \<^verbatim>\<open>disconnect()\<close>, reaches the application as \<open>surfaced_to\<close> says, listener by
  listener and in registration order, and the status, the options and the retry count
  that decide it are the ones the session had when the event arrived: a connect-failure
  callback is called (with the event's reason code) exactly when the status was
  connecting, a disconnect callback exactly when it was not, tagged \<open>forceDisconnected\<close>
  for the status disconnected and \<open>autoDisconnected\<close> for the status connected, and
  with the current retry count. A callback that throws is called once more, with the
  reason code \<open>DEFAULT\<close>.
\<close>

theorem disconnect_event_classified:
  assumes "w = run as (constructor cid h p opts)"
    and "\<forall>c. list_all keeps_session (fst (beh c))"
  shows "surfaced (trace (deliver (clientId w @ DISCONNECTED_EVENT) ack beh w))
           = surfaced (trace w)
             @ concat (map (surfaced_to (\<lambda>c. snd (beh c)) w ack)
                         (handlers_for (clientId w @ DISCONNECTED_EVENT) w))
         \<and> handlers_for (clientId w @ DISCONNECTED_EVENT) (snd (setOnConnectFailureCallback f w))
             = handlers_for (clientId w @ DISCONNECTED_EVENT) w
               @ [Intercepted (ConnectFailureWrapper f)]
         \<and> handlers_for (clientId w @ DISCONNECTED_EVENT) (snd (setOnDisconnectCallback g w))
             = handlers_for (clientId w @ DISCONNECTED_EVENT) w
               @ [Intercepted (DisconnectWrapper g)]
         \<and> surfaced_to (\<lambda>c. False) w ack (Intercepted (ConnectFailureWrapper f))
             = (if connectionStatus w = CONNECTING then [ConnectFailure f (reasonCode ack)] else [])
         \<and> surfaced_to (\<lambda>c. False) w ack (Intercepted (DisconnectWrapper g))
             = (case connectionStatus w of
                  CONNECTING \<Rightarrow> []
                | DISCONNECTED \<Rightarrow>
                    [OnDisconnect g (reasonCode ack) (options w) forceDisconnected (currentRetryCount w)]
                | CONNECTED \<Rightarrow>
                    [OnDisconnect g (reasonCode ack) (options w) autoDisconnected (currentRetryCount w)])"
proof -
  have "channel_inv w" unfolding assms(1) by (rule channel_run)
  then have "\<forall>l \<in> set (handlers_for (clientId w @ DISCONNECTED_EVENT) w).
               callback_of l \<noteq> ConnectedHandler"
    by (rule no_ConnectedHandler_on_disconnect)
  moreover have "same_session w w" by (simp add: same_session_def)
  moreover have "list_all keeps_session (fst (beh c))" for c using assms(2) by simp
  ultimately have "surfaced (trace (deliver (clientId w @ DISCONNECTED_EVENT) ack beh w))
           = surfaced (trace w)
             @ concat (map (surfaced_to (\<lambda>c. snd (beh c)) w ack)
                         (handlers_for (clientId w @ DISCONNECTED_EVENT) w))"
    unfolding deliver_def by (rule surfaced_foldl)
  moreover have "handlers_for (clientId w @ DISCONNECTED_EVENT) (snd (setOnConnectFailureCallback f w))
             = handlers_for (clientId w @ DISCONNECTED_EVENT) w
               @ [Intercepted (ConnectFailureWrapper f)]"
    "handlers_for (clientId w @ DISCONNECTED_EVENT) (snd (setOnDisconnectCallback g w))
             = handlers_for (clientId w @ DISCONNECTED_EVENT) w
               @ [Intercepted (DisconnectWrapper g)]"
    by (simp_all add: setOnConnectFailureCallback_def setOnDisconnectCallback_def
        onDisconnectInterceptor_def handlers_for_add)
  moreover have "surfaced_to (\<lambda>c. False) w ack (Intercepted (ConnectFailureWrapper f))
             = (if connectionStatus w = CONNECTING then [ConnectFailure f (reasonCode ack)] else [])"
    by (simp add: failure_variant_def)
  moreover have "surfaced_to (\<lambda>c. False) w ack (Intercepted (DisconnectWrapper g))
             = (case connectionStatus w of
                  CONNECTING \<Rightarrow> []
                | DISCONNECTED \<Rightarrow>
                    [OnDisconnect g (reasonCode ack) (options w) forceDisconnected (currentRetryCount w)]
                | CONNECTED \<Rightarrow>
                    [OnDisconnect g (reasonCode ack) (options w) autoDisconnected (currentRetryCount w)])"
    by (simp add: disconnect_variant_def split: CONNECTION_STATE.splits)
  ultimately show ?thesis by simp
qed

lemma watched_eval:
  "clientId watched @ DISCONNECTED_EVENT = ''c1DISCONNECTED''"
  "connectionStatus watched = DISCONNECTED"
  "surfaced (trace watched) = []"
  "concat (map (surfaced_to never_throws watched dropped) (handlers_for ''c1DISCONNECTED'' watched))
     = [OnDisconnect 8 (REASON 135) (Some (retry3 1000)) forceDisconnected 0]"
  "clientId watching @ DISCONNECTED_EVENT = ''c1DISCONNECTED''"
  "connectionStatus watching = CONNECTING"
  "surfaced (trace watching) = []"
  "concat (map (surfaced_to never_throws watching dropped) (handlers_for ''c1DISCONNECTED'' watching))
     = [ConnectFailure 9 (REASON 135)]"
  "clientId watched_connected @ DISCONNECTED_EVENT = ''c1DISCONNECTED''"
  "connectionStatus watched_connected = CONNECTED"
  "surfaced (trace watched_connected) = []"
  "concat (map (surfaced_to never_throws watched_connected dropped)
             (handlers_for ''c1DISCONNECTED'' watched_connected))
     = [OnDisconnect 8 (REASON 135) (Some (retry3 1000)) autoDisconnected 0]"
  "handlers_for ''c1DISCONNECTED'' watching
     = [Intercepted (ConnectFailureWrapper 9), Intercepted (DisconnectWrapper 8)]"
  by code_simp+

text \<open>
  The session \<open>c1\<close> with the connect-failure callback \<open>9\<close> and the disconnect
  callback \<open>8\<close>, in each status: while it is connecting the event reaches \<open>9\<close> only;
  once it is connected the event reaches \<open>8\<close> as \<open>autoDisconnected\<close>; after
  \<^verbatim>\<open>disconnect()\<close> it reaches \<open>8\<close> as \<open>forceDisconnected\<close>.
\<close>

theorem disconnect_event_classified_witness:
  "connectionStatus watching = CONNECTING
   \<and> handlers_for ''c1DISCONNECTED'' watching
       = [Intercepted (ConnectFailureWrapper 9), Intercepted (DisconnectWrapper 8)]
   \<and> surfaced (trace (emit ''c1DISCONNECTED'' dropped never_throws watching))
       = [ConnectFailure 9 (REASON 135)]
   \<and> connectionStatus watched_connected = CONNECTED
   \<and> surfaced (trace (emit ''c1DISCONNECTED'' dropped never_throws watched_connected))
       = [OnDisconnect 8 (REASON 135) (Some (retry3 1000)) autoDisconnected 0]
   \<and> connectionStatus watched = DISCONNECTED
   \<and> surfaced (trace (emit ''c1DISCONNECTED'' dropped never_throws watched))
       = [OnDisconnect 8 (REASON 135) (Some (retry3 1000)) forceDisconnected 0]"
proof -
  have q: "\<forall>c. list_all keeps_session (fst (quiet never_throws c))"
    by (simp add: quiet_def)
  have n: "(\<lambda>c. snd (quiet never_throws c)) = never_throws"
    by (simp add: quiet_def fun_eq_iff)
  note connecting = disconnect_event_classified [OF watching_def q, where ack = dropped and f = 9 and g = 8]
  note connected = disconnect_event_classified [OF watched_connected_def q, where ack = dropped and f = 9 and g = 8]
  note disconnected = disconnect_event_classified [OF watched_def q, where ack = dropped and f = 9 and g = 8]
  show ?thesis
    using connecting connected disconnected watched_eval
    by (simp add: n emit_def)
qed

subsection \<open>C6: connect, again\<close>

text \<open>
  Claim C6, as stated, fails: the first retry timer of the session \<open>c1\<close> has fired and
  its callback waits for the interceptor \<open>7\<close>; \<^verbatim>\<open>connect()\<close> is called a second
  time. The suspended callback is still there, next to the new retry timer \<open>1\<close>: two
  retry chains. When the interceptor answers, the old callback calls the native connect
  a third time, cancels the timer \<open>1\<close> and schedules the timer \<open>2\<close>.
\<close>

theorem connect_keeps_suspended_retry:
  "\<not> (retry_chains (connect None stale_retry) \<le> 1)
   \<and> map fst (timers (connect None stale_retry)) = [1]
   \<and> inflight (connect None stale_retry) = [(AwaitIntercepter, RetryK)]
   \<and> length (connects (trace (connect None stale_retry))) = 2
   \<and> length (connects (trace (settle 0 (Resolved None) (connect None stale_retry)))) = 3
   \<and> map fst (timers (settle 0 (Resolved None) (connect None stale_retry))) = [2]"
  by code_simp

text \<open>
  Claim C6, as amended. In whatever state a session is (so also right after a first
  \<^verbatim>\<open>connect()\<close>, while it is connecting), \<^verbatim>\<open>connect(new)\<close> leaves the retry count
  at \<open>0\<close> and the status at connecting; every property that \<open>new\<close> specifies has
  replaced the session's and every other property of the options has persisted; the
  native connect is called with the merged options. Every timer that was pending before
  the call is cancelled, and at most one timer is pending after it, and also after
  whatever happens next (\<open>bs\<close>). The callbacks that are suspended on the interceptor
  are not cancelled: they are the same after the call as before it, so the retry chains
  running after the call are at most one more than the callbacks that were suspended,
  and at most one when none was.
\<close>

theorem connect_restarts:
  assumes "w = run as (constructor cid h p opts)"
  shows "currentRetryCount (connect new w) = 0
         \<and> connectionStatus (connect new w) = CONNECTING
         \<and> shallow_merge (options w) new (options (connect new w))
         \<and> connects (trace (connect new w)) =
             connects (trace w) @ [connect_options (options (connect new w))]
         \<and> (\<forall>t \<in> set (timers w). t \<notin> set (timers (connect new w)))
         \<and> length (timers (connect new w)) \<le> 1
         \<and> length (timers (run bs (connect new w))) \<le> 1
         \<and> inflight (connect new w) = inflight w
         \<and> retry_chains (connect new w) \<le> 1 + length (inflight w)
         \<and> (inflight w = [] \<longrightarrow> retry_chains (connect new w) \<le> 1)"
proof -
  define v where "v = resetOptions new (resetConnectVariables w)"
  have ti: "timer_inv w" unfolding assms by (rule timer_run)
  have v: "connectionStatus v = CONNECTING" "timer_inv v"
    unfolding v_def by (simp_all add: status_prepare timer_inv_prepare ti)
  have c: "connect new w = connection v" by (simp add: connect_def v_def)
  have vf: "currentRetryCount v = 0" "trace v = trace w" "next_timer v = next_timer w"
    by (simp_all add: v_def resetOptions_fields) (simp_all add: resetConnectVariables_def)
  have old: "fst t < next_timer w" if "t \<in> set (timers w)" for t
    using ti that by (auto simp: timer_inv_def)
  have gone: "t \<notin> set (timers (connection v))" if "t \<in> set (timers w)" for t
    using old [OF that] by (auto simp: connection_connecting [OF v] vf)
  have "run bs (connect new w) = run (as @ Connect new # bs) (constructor cid h p opts)"
    by (simp add: assms run_def)
  then have "timer_inv (run bs (connect new w))"
    by (simp only: timer_run)
  then have later: "length (timers (run bs (connect new w))) \<le> 1"
    by (rule timer_inv_at_most_one)
  have one: "length (timers (connect new w)) \<le> 1"
    by (simp add: c connection_connecting [OF v])
  have chains: "retry_chains (connect new w) \<le> 1 + length (inflight w)"
    "inflight w = [] \<Longrightarrow> retry_chains (connect new w) \<le> 1"
    using one by (simp_all add: retry_chains_def connect_inflight)
  have fields: "currentRetryCount (connect new w) = 0"
    "connectionStatus (connect new w) = CONNECTING"
    "connects (trace (connect new w)) =
       connects (trace w) @ [connect_options (options (connect new w))]"
    by (rule connect_fields)+
  show ?thesis
    using fields connect_merges [of w new] gone [unfolded c [symmetric]] one later
      connect_inflight [of new w] chains
    by simp
qed

lemma connected_twice_timers:
  "timers connected_twice = [(0, \<lparr>arg_backoffTime = Some 100, arg_attempt = 0,
       arg_maxBackoffTime = Some 1000, arg_jitter = None\<rparr>)]"
  "timers (connect (Some refreshed) connected_twice) = [(1, \<lparr>arg_backoffTime = Some 100, arg_attempt = 0,
       arg_maxBackoffTime = Some 1000, arg_jitter = None\<rparr>)]"
  "connectionStatus connected_twice = CONNECTING"
  "options connected_twice = Some (retry3 1000)"
  "options (connect (Some refreshed) connected_twice) = Some ((retry3 1000)\<lparr>username := Value ''u''\<rparr>)"
  "connects (trace (connect (Some refreshed) connected_twice))
     = [\<lparr>arg_keepAlive = 60, arg_username = [], arg_password = [], arg_cleanSession = True\<rparr>,
        \<lparr>arg_keepAlive = 60, arg_username = ''u'', arg_password = [], arg_cleanSession = True\<rparr>]"
  "inflight connected_twice = []"
  by code_simp+

text \<open>
  A second \<^verbatim>\<open>connect()\<close>, with a new user name, while the first one's retry timer
  \<open>0\<close> is pending: timer \<open>0\<close> is gone, timer \<open>1\<close> is the only one pending; the
  retry settings of the first call persist and the user name is the new one.
\<close>

theorem connect_restarts_witness:
  "connected_twice = run [Connect None] (constructor ''c1'' ''broker'' 1883 (Some (retry3 1000)))
   \<and> connectionStatus connected_twice = CONNECTING
   \<and> timers connected_twice = [(0, \<lparr>arg_backoffTime = Some 100, arg_attempt = 0,
        arg_maxBackoffTime = Some 1000, arg_jitter = None\<rparr>)]
   \<and> timers (connect (Some refreshed) connected_twice) = [(1, \<lparr>arg_backoffTime = Some 100, arg_attempt = 0,
        arg_maxBackoffTime = Some 1000, arg_jitter = None\<rparr>)]
   \<and> currentRetryCount (connect (Some refreshed) connected_twice) = 0
   \<and> connectionStatus (connect (Some refreshed) connected_twice) = CONNECTING
   \<and> shallow_merge (Some (retry3 1000)) (Some refreshed)
       (Some ((retry3 1000)\<lparr>username := Value ''u''\<rparr>))
   \<and> options (connect (Some refreshed) connected_twice)
       = Some ((retry3 1000)\<lparr>username := Value ''u''\<rparr>)
   \<and> connects (trace (connect (Some refreshed) connected_twice))
       = [\<lparr>arg_keepAlive = 60, arg_username = [], arg_password = [], arg_cleanSession = True\<rparr>,
          \<lparr>arg_keepAlive = 60, arg_username = ''u'', arg_password = [], arg_cleanSession = True\<rparr>]
   \<and> retry_chains (connect (Some refreshed) connected_twice) \<le> 1"
  by (rule conjI [OF connected_twice_def])
     (use connect_restarts [OF connected_twice_def, where new = "Some refreshed" and bs = "[]"]
        connected_twice_timers in simp)

subsection \<open>C7: subscribing twice\<close>

text \<open>
  Claim C7. Two successive calls of \<^verbatim>\<open>subscribe\<close> for the same topic and QoS pass
  two event identifiers of the form \<open>prefix#subscribe_mqtt#topic#qos#tag\<close> to the native
  module; the tag grows with each call and the two identifiers differ. Each call
  registers its own three listeners, and removing one handle leaves the three listeners
  of the other (and everything registered before) in place.
\<close>

theorem subscribe_twice_distinct:
  assumes "w = run as (constructor cid h p opts)"
    and "subscribe topic qos e1 s1 f1 w = (h1, w1)"
    and "subscribe topic qos e2 s2 f2 w1 = (h2, w2)"
  shows "trace w2 = trace w @
           [SubscribeMqtt (event_id w topic (default_qos qos) (tag w1)) (clientId w) topic (default_qos qos),
            SubscribeMqtt (event_id w topic (default_qos qos) (tag w2)) (clientId w) topic (default_qos qos)]
         \<and> event_id w topic (default_qos qos) (tag w1) \<noteq> event_id w topic (default_qos qos) (tag w2)
         \<and> tag w < tag w1 \<and> tag w1 < tag w2
         \<and> listeners w2 = listeners w
             @ registrations (event_id w topic (default_qos qos) (tag w1)) h1 e1 s1 f1
             @ registrations (event_id w topic (default_qos qos) (tag w2)) h2 e2 s2 f2
         \<and> listeners (subscription_remove h1 w2) = listeners w
             @ registrations (event_id w topic (default_qos qos) (tag w2)) h2 e2 s2 f2
         \<and> listeners (subscription_remove h2 w2) = listeners w
             @ registrations (event_id w topic (default_qos qos) (tag w1)) h1 e1 s1 f1"
proof -
  define a where "a = next_listener w"
  have 1: "tag w1 = Suc (tag w)" "tag w2 = Suc (Suc (tag w))"
    using assms(2,3) by (auto simp: subscribe_unfold)
  have h: "h1 = (a, Suc a, Suc (Suc a))" "h2 = (Suc (Suc (Suc a)), Suc (Suc (Suc (Suc a))), Suc (Suc (Suc (Suc (Suc a)))))"
    using assms(2,3) by (auto simp: subscribe_unfold a_def)
  have fresh: "fst (snd r) < a" if "r \<in> set (listeners w)" for r
    using bus_run [of as cid h p opts] that by (simp add: bus_inv_def assms(1) a_def)
  have keep1: "filter (\<lambda>r. fst (snd r) \<noteq> a \<and> fst (snd r) \<noteq> Suc a \<and> fst (snd r) \<noteq> Suc (Suc a))
                 (listeners w) = listeners w"
    by (rule filter_fresh_tokens [where a = a]) (simp_all add: fresh)
  have keep2: "filter (\<lambda>r. fst (snd r) \<noteq> Suc (Suc (Suc a)) \<and> fst (snd r) \<noteq> Suc (Suc (Suc (Suc a)))
                   \<and> fst (snd r) \<noteq> Suc (Suc (Suc (Suc (Suc a))))) (listeners w) = listeners w"
    by (rule filter_fresh_tokens [where a = a]) (simp_all add: fresh)
  have ne: "event_id w topic (default_qos qos) (Suc (tag w)) \<noteq> event_id w topic (default_qos qos) (Suc (Suc (tag w)))"
    using event_id_inj [of w topic "default_qos qos" "Suc (tag w)" "Suc (Suc (tag w))"] by auto
  have ev: "event_id w1 = event_id w"
    using assms(2) by (auto simp: subscribe_unfold event_id_def getIdPrefix_def fun_eq_iff)
  have l2: "listeners w2 = listeners w
             @ registrations (event_id w topic (default_qos qos) (tag w1)) h1 e1 s1 f1
             @ registrations (event_id w topic (default_qos qos) (tag w2)) h2 e2 s2 f2"
    using assms(2,3) ev by (auto simp: subscribe_unfold)
  have r1: "listeners (subscription_remove h1 w2) = listeners w
             @ registrations (event_id w topic (default_qos qos) (tag w2)) h2 e2 s2 f2"
    unfolding h(1) subscription_remove_filter
    by (simp add: l2 keep1) (simp add: h registrations_def)
  have r2: "listeners (subscription_remove h2 w2) = listeners w
             @ registrations (event_id w topic (default_qos qos) (tag w1)) h1 e1 s1 f1"
    unfolding h(2) subscription_remove_filter
    by (simp add: l2 keep2) (simp add: h registrations_def)
  show ?thesis
    using assms(2,3) ne ev r1 r2 l2 by (auto simp: subscribe_unfold)
qed

lemma second_subscription_ids:
  "event_id session_c1 ''t'' (default_qos None) (tag (snd one_subscription))
     = ''mqtt_client#c1#subscribe_mqtt#t#1#1''"
  "event_id session_c1 ''t'' (default_qos None) (tag (snd second_subscription))
     = ''mqtt_client#c1#subscribe_mqtt#t#1#2''"
  by code_simp+

text \<open>Two subscriptions to the topic \<open>t\<close> on the session \<open>c1\<close>.\<close>

theorem subscribe_twice_distinct_witness:
  "session_c1 = run [] (constructor ''c1'' ''broker'' 1883 None)
   \<and> subscribe ''t'' None 1 None None session_c1 = (fst one_subscription, snd one_subscription)
   \<and> subscribe ''t'' None 2 None None (snd one_subscription)
       = (fst second_subscription, snd second_subscription)
   \<and> ''mqtt_client#c1#subscribe_mqtt#t#1#1'' \<noteq> ''mqtt_client#c1#subscribe_mqtt#t#1#2''
   \<and> tag session_c1 < tag (snd one_subscription)
   \<and> tag (snd one_subscription) < tag (snd second_subscription)
   \<and> listeners (subscription_remove (fst one_subscription) (snd second_subscription)) =
       listeners session_c1
       @ registrations ''mqtt_client#c1#subscribe_mqtt#t#1#2'' (fst second_subscription) 2 None None"
  using subscribe_twice_distinct [of session_c1 "[]" "''c1''" "''broker''" 1883 None "''t''" None
      1 None None "fst one_subscription" "snd one_subscription" 2 None None
      "fst second_subscription" "snd second_subscription"]
    session_c1_run second_subscription_ids
  by (simp add: one_subscription_def second_subscription_def)

subsection \<open>C8: removing a subscription\<close>

text \<open>
  Claim C8. In any session, a handle returned by \<^verbatim>\<open>subscribe\<close> stands for the three
  registrations that this call appended to the bus (event, success, failure). Whatever
  happens to the session afterwards, the handle's \<^verbatim>\<open>remove()\<close> takes exactly these
  three registrations out of the bus and changes nothing else of the world: every other
  registration stays, in its order, and the trace is the same, so no native call
  (in particular no unsubscribe) is made.
\<close>

theorem subscription_remove_exact:
  assumes "w = run as (constructor cid h p opts)"
    and "subscribe topic qos onEvent onSuccess onError w = (handle, w1)"
    and "v = run bs w1"
  shows "listeners w1 = listeners w
           @ registrations (fst (getMqttSubscribeEventId topic (default_qos qos) w)) handle
               onEvent onSuccess onError
         \<and> subscription_remove handle v =
             v\<lparr>listeners :=
                 filter (\<lambda>r. r \<notin> set (registrations
                                        (fst (getMqttSubscribeEventId topic (default_qos qos) w))
                                        handle onEvent onSuccess onError))
                   (listeners v)\<rparr>
         \<and> trace (subscription_remove handle v) = trace v"
proof -
  define a where "a = next_listener w"
  define eid where "eid = fst (getMqttSubscribeEventId topic (default_qos qos) w)"
  define regs where "regs = registrations eid handle onEvent onSuccess onError"
  have handle: "handle = (a, Suc a, Suc (Suc a))"
    using assms(2) by (simp add: subscribe_unfold a_def)
  have w1: "listeners w1 = listeners w @ regs" "next_listener w1 = Suc (Suc (Suc a))"
    using assms(2)
    by (auto simp: subscribe_unfold a_def regs_def eid_def getMqttSubscribeEventId_event_id)
  have fresh: "fst (snd r) < a" if "r \<in> set (listeners w)" for r
    using bus_run [of as cid h p opts] that by (simp add: bus_inv_def assms(1) a_def)
  have "old_tokens (next_listener w1) (listeners w1) w1"
    by (simp add: old_tokens_def)
  then have old: "old_tokens (Suc (Suc (Suc a))) (listeners w @ regs) v"
    unfolding assms(3) w1 [symmetric] by (rule old_tokens_run)
  have tokens: "fst (snd r) \<in> {a, Suc a, Suc (Suc a)}" if "r \<in> set regs" for r
    using that by (auto simp: regs_def registrations_def handle)
  have same: "(fst (snd r) \<notin> {a, Suc a, Suc (Suc a)}) = (r \<notin> set regs)"
    if "r \<in> set (listeners v)" for r
  proof (cases "fst (snd r) \<in> {a, Suc a, Suc (Suc a)}")
    case True
    then have "r \<in> set (listeners w @ regs)"
      using old that by (auto simp: old_tokens_def)
    then have "r \<in> set regs" using True fresh [of r] by auto
    then show ?thesis using True by simp
  next
    case False
    then show ?thesis using tokens [of r] by blast
  qed
  have "filter (\<lambda>r. fst (snd r) \<noteq> a \<and> fst (snd r) \<noteq> Suc a \<and> fst (snd r) \<noteq> Suc (Suc a)) (listeners v)
        = filter (\<lambda>r. r \<notin> set regs) (listeners v)"
    by (rule filter_cong) (use same in auto)
  then have "subscription_remove handle v = v\<lparr>listeners := filter (\<lambda>r. r \<notin> set regs) (listeners v)\<rparr>"
    by (simp add: handle subscription_remove_filter)
  then show ?thesis
    using w1(1) by (simp add: regs_def eid_def)
qed

lemma second_subscription_removed:
  "listeners (subscription_remove (fst one_subscription) (snd second_subscription)) =
     [(''c1CONNECTED'', 0, Direct ConnectedHandler),
      (''mqtt_client#c1#subscribe_mqtt#t#1#2'', 4, Direct (AppCallback 2)),
      (''mqtt_client#c1#subscribe_mqtt#t#1#2SUCCESS'', 5, Direct NoOp),
      (''mqtt_client#c1#subscribe_mqtt#t#1#2FAILURE'', 6, Direct NoOp)]"
  by code_simp

text \<open>
  The first of two subscriptions to the same topic is removed: the second and the
  connected-event listener of the constructor stay.
\<close>

theorem subscription_remove_exact_witness:
  "session_c1 = run [] (constructor ''c1'' ''broker'' 1883 None)
   \<and> subscribe ''t'' None 1 None None session_c1 = (fst one_subscription, snd one_subscription)
   \<and> snd second_subscription = run [Subscribe ''t'' None 2 None None] (snd one_subscription)
   \<and> trace (subscription_remove (fst one_subscription) (snd second_subscription))
       = trace (snd second_subscription)
   \<and> listeners (subscription_remove (fst one_subscription) (snd second_subscription)) =
       [(''c1CONNECTED'', 0, Direct ConnectedHandler),
        (''mqtt_client#c1#subscribe_mqtt#t#1#2'', 4, Direct (AppCallback 2)),
        (''mqtt_client#c1#subscribe_mqtt#t#1#2SUCCESS'', 5, Direct NoOp),
        (''mqtt_client#c1#subscribe_mqtt#t#1#2FAILURE'', 6, Direct NoOp)]"
  using subscription_remove_exact [of session_c1 "[]" "''c1''" "''broker''" 1883 None "''t''" None
      1 None None "fst one_subscription" "snd one_subscription" "snd second_subscription"
      "[Subscribe ''t'' None 2 None None]"]
    session_c1_run second_subscription_removed
  by (simp add: one_subscription_def second_subscription_def run_def)

subsection \<open>C9: an empty host\<close>

text \<open>
  Claim C9. With an empty host the constructor returns the freshly initialised object: no
  native call is made (the trace is empty, so \<^verbatim>\<open>createMqtt\<close> was not invoked) and
  no listener is registered. The constructor is a total function with no error branch.
\<close>

theorem constructor_empty_host:
  "constructor cid [] p opts = fresh cid [] p opts
   \<and> trace (constructor cid [] p opts) = []
   \<and> listeners (constructor cid [] p opts) = []"
  by (simp add: constructor_def fresh_def)

subsection \<open>C10: the clean-session flag\<close>

text \<open>
  Claim C10. In every history of every session, each \<^verbatim>\<open>connectMqtt\<close> call carries
  \<open>cleanSession = true\<close>, whatever the options say: the object built at lines 142-147
  has it for every option bag.
\<close>

theorem connect_always_cleanSession:
  "list_all arg_cleanSession (connects (trace (run as (constructor cid h p opts))))
   \<and> arg_cleanSession (connect_options opts')"
  using clean_run [of as cid h p opts] by (simp add: clean_inv_def clean_connect_options)

lemma stubborn_connects:
  "connects (trace (run [Connect None] (constructor ''c1'' ''broker'' 1883 (Some stubborn)))) =
     [\<lparr>arg_keepAlive = 60, arg_username = [], arg_password = [], arg_cleanSession = True\<rparr>]"
  by code_simp

text \<open>The session asks for \<open>cleanSession = false\<close> and connects with \<open>true\<close>.\<close>

theorem connect_always_cleanSession_witness:
  "cleanSession stubborn = Value False
   \<and> connects (trace (run [Connect None] (constructor ''c1'' ''broker'' 1883 (Some stubborn)))) =
       [\<lparr>arg_keepAlive = 60, arg_username = [], arg_password = [], arg_cleanSession = True\<rparr>]
   \<and> list_all arg_cleanSession
       (connects (trace (run [Connect None] (constructor ''c1'' ''broker'' 1883 (Some stubborn)))))
   \<and> arg_cleanSession (connect_options (Some stubborn))"
  using connect_always_cleanSession [of "[Connect None]" "''c1''" "''broker''" 1883 "Some stubborn" "Some stubborn"]
    stubborn_connects
  by (simp add: stubborn_def no_options_def)


end
